theory Spec2Isabelle
  imports Main "HOL-Library.Word"
begin

section \<open>ArduLog AI Analyst: the state logic of \<open>src/index.tsx\<close>\<close>

text \<open>
  The application is one React component, \<open>App\<close>, whose state is ten \<open>useState\<close> cells and
  whose behaviour is a handful of event handlers. The handlers are modelled as the code has
  them: a handler reads the state it was created with (its closure), and issues setter calls
  and calls to the platform and to the remote service. A handler that awaits is cut at its
  suspension points into segments; a segment runs to completion before anything else does.
  The results of the platform and of the remote service (a rejected promise, the fragments of
  a stream) are parameters of the handlers.
\<close>

subsection \<open>JavaScript strings\<close>

text \<open>A JavaScript string is a sequence of 16-bit code units.\<close>

type_synonym jsstring = "16 word list"

definition js :: "string \<Rightarrow> jsstring" where
  "js s = map of_char s"

text \<open>\<open>String.prototype.startsWith\<close> and \<open>endsWith\<close> (position argument absent).\<close>

definition startsWith :: "'a list \<Rightarrow> 'a list \<Rightarrow> bool" where
  "startsWith s p \<longleftrightarrow> take (length p) s = p"

definition endsWith :: "'a list \<Rightarrow> 'a list \<Rightarrow> bool" where
  "endsWith s p \<longleftrightarrow> length p \<le> length s \<and> drop (length s - length p) s = p"

text \<open>\<open>s.split(sep)\<close> for a separator of one code unit: never an empty array.\<close>

fun split :: "'a \<Rightarrow> 'a list \<Rightarrow> 'a list list" where
  "split sep [] = [[]]"
| "split sep (c # cs) =
     (if c = sep then [] # split sep cs
      else (case split sep cs of [] \<Rightarrow> [[c]] | l # ls \<Rightarrow> (c # l) # ls))"

text \<open>\<open>lines.join(sep)\<close>, the inverse of \<open>split\<close>.\<close>

fun join :: "'a \<Rightarrow> 'a list list \<Rightarrow> 'a list" where
  "join sep [] = []"
| "join sep [l] = l"
| "join sep (l # ls) = l @ sep # join sep ls"

text \<open>
  \<open>s.replace(pat, rep)\<close> with a string pattern: the first occurrence only. (The source's
  replacement is the empty string, so the \<open>$\<close> patterns of a replacement play no part.)
\<close>

fun replace :: "'a list \<Rightarrow> 'a list \<Rightarrow> 'a list \<Rightarrow> 'a list" where
  "replace pat rep [] = (if pat = [] then rep else [])"
| "replace pat rep (c # cs) =
     (if startsWith (c # cs) pat then rep @ drop (length pat) (c # cs)
      else c # replace pat rep cs)"

text \<open>
  \<open>s.replace(/pat/g, rep)\<close> for a regular expression that matches the literal, non-empty
  \<open>pat\<close>: every match, scanning from the left, a match consuming its code units.
\<close>

function replace_g :: "'a list \<Rightarrow> 'a list \<Rightarrow> 'a list \<Rightarrow> 'a list" where
  "replace_g pat rep [] = []"
| "replace_g pat rep (c # cs) =
     (if pat \<noteq> [] \<and> startsWith (c # cs) pat
      then rep @ replace_g pat rep (drop (length pat) (c # cs))
      else c # replace_g pat rep cs)"
  by pat_completeness auto
termination
  by (relation "measure (\<lambda>(pat, rep, s). length s)") (auto simp: neq_Nil_conv)

text \<open>
  \<open>String.prototype.trim\<close>: white space and line terminators of ECMAScript (TAB, LF, VT, FF,
  CR, SP, NBSP, U+1680, U+2000..U+200A, U+2028, U+2029, U+202F, U+205F, U+3000, U+FEFF)
  are removed at both ends.
\<close>

definition isWhiteSpace :: "16 word \<Rightarrow> bool" where
  "isWhiteSpace c \<longleftrightarrow>
     c \<in> set [0x09, 0x0A, 0x0B, 0x0C, 0x0D, 0x20, 0xA0, 0x1680, 0x2028, 0x2029,
              0x202F, 0x205F, 0x3000, 0xFEFF]
     \<or> (0x2000 \<le> c \<and> c \<le> 0x200A)"

definition trim :: "jsstring \<Rightarrow> jsstring" where
  "trim s = rev (dropWhile isWhiteSpace (rev (dropWhile isWhiteSpace s)))"

text \<open>Truthiness of a \<open>string | undefined\<close> or \<open>string | null\<close> value: the empty string is falsy.\<close>

fun truthy :: "jsstring option \<Rightarrow> bool" where
  "truthy None = False"
| "truthy (Some t) = (t \<noteq> [])"

text \<open>The text a fragment adds: nothing when it has none.\<close>

fun textOf :: "jsstring option \<Rightarrow> jsstring" where
  "textOf None = []"
| "textOf (Some t) = t"

subsection \<open>Types\<close>

record HardwareContext =
  frameType :: jsstring
  weight :: jsstring
  batteryCells :: jsstring
  batteryCapacity :: jsstring
  motorKv :: jsstring
  propSize :: jsstring
  escAmps :: jsstring

text \<open>\<open>keyof HardwareContext\<close>\<close>

datatype hw_field =
  FrameType | Weight | BatteryCells | BatteryCapacity | MotorKv | PropSize | EscAmps

datatype role = User | Model

record Message =
  role :: role
  "text" :: jsstring

text \<open>A \<open>File\<close>: its name, its MIME type and its bytes; \<open>file.size\<close> is the number of bytes.\<close>

record File =
  name :: jsstring
  "type" :: jsstring
  bytes :: "8 word list"

definition size_of :: "File \<Rightarrow> nat" where
  "size_of f = length (bytes f)"

text \<open>\<open>blob.slice(start, stop)\<close> on the bytes, for \<open>0 \<le> start \<le> stop\<close>.\<close>

definition slice :: "8 word list \<Rightarrow> nat \<Rightarrow> nat \<Rightarrow> 8 word list" where
  "slice bs start stop = take (stop - start) (drop start bs)"

text \<open>A thrown value or a rejection: an object that may have a \<open>message\<close>.\<close>

datatype JsError = JsError (message: "jsstring option")

text \<open>The SDK's \<open>Part\<close> and \<open>Content\<close>, as far as the source builds them.\<close>

datatype Part =
    TextPart jsstring
  | InlineData (mimeType: jsstring) (data: "jsstring option")

datatype Content = Content (content_role: role) (parts: "Part list")

text \<open>The argument of \<open>ai.models.generateContentStream\<close>.\<close>

record GenerateRequest =
  model :: jsstring
  contents :: "Part list"
  config_systemInstruction :: jsstring
  thinkingBudget :: nat

text \<open>
  A \<open>Chat\<close> is opaque to the source; it is modelled by what \<open>ai.chats.create\<close> was given.
\<close>

record Chat =
  chat_model :: jsstring
  history :: "Content list"
  chat_systemInstruction :: jsstring

text \<open>
  A stream of the remote service that ends: the \<open>text\<close> of each fragment (a fragment may
  carry none), and the error it ends with, if it does not end normally.
\<close>

record Stream =
  chunks :: "jsstring option list"
  failure :: "JsError option"

subsection \<open>The component's state\<close>

record AppState =
  hardware :: HardwareContext
  logData :: jsstring
  imageFile :: "File option"
  imagePreview :: "jsstring option"
  isAnalyzing :: bool
  analysisResult :: "jsstring option"
  chatSession :: "Chat option"
  chatHistory :: "Message list"
  chatInput :: jsstring
  errorMsg :: jsstring

definition initialState :: AppState where
  "initialState =
     \<lparr>hardware = \<lparr>frameType = js ''Quad X'', weight = [], batteryCells = [],
                   batteryCapacity = [], motorKv = [], propSize = [], escAmps = []\<rparr>,
      logData = [], imageFile = None, imagePreview = None, isAnalyzing = False,
      analysisResult = None, chatSession = None, chatHistory = [], chatInput = [],
      errorMsg = []\<rparr>"

subsection \<open>Setter calls and outside calls\<close>

datatype call =
    NewGoogleGenAI "jsstring option"
  | ReadAsDataURL File
  | GenerateContentStream GenerateRequest
  | ChatsCreate Chat
  | SendMessageStream Chat jsstring
  | ReadText "8 word list"
  | CreateObjectURL File
  | ConsoleError JsError

text \<open>
  One constructor for each shape of setter call in the source. \<open>UpdateHardware\<close>,
  \<open>AppendChatHistory\<close> and \<open>ReplaceLastChatHistory\<close> are the three functional updates
  (\<open>setX(prev => ...)\<close>): they act on the value the state has when they are applied.
\<close>

datatype event =
    UpdateHardware hw_field jsstring
  | SetLogData jsstring
  | SetImageFile "File option"
  | SetImagePreview "jsstring option"
  | SetIsAnalyzing bool
  | SetAnalysisResult "jsstring option"
  | SetChatSession "Chat option"
  | SetChatHistory "Message list"
  | AppendChatHistory Message
  | ReplaceLastChatHistory Message
  | SetChatInput jsstring
  | SetErrorMsg jsstring
  | Call call

type_synonym segment = "event list"

text \<open>\<open>prev => ({ ...prev, [field]: value })\<close>\<close>

fun updateField :: "hw_field \<Rightarrow> jsstring \<Rightarrow> HardwareContext \<Rightarrow> HardwareContext" where
  "updateField FrameType v prev = prev\<lparr>frameType := v\<rparr>"
| "updateField Weight v prev = prev\<lparr>weight := v\<rparr>"
| "updateField BatteryCells v prev = prev\<lparr>batteryCells := v\<rparr>"
| "updateField BatteryCapacity v prev = prev\<lparr>batteryCapacity := v\<rparr>"
| "updateField MotorKv v prev = prev\<lparr>motorKv := v\<rparr>"
| "updateField PropSize v prev = prev\<lparr>propSize := v\<rparr>"
| "updateField EscAmps v prev = prev\<lparr>escAmps := v\<rparr>"

fun field_of :: "hw_field \<Rightarrow> HardwareContext \<Rightarrow> jsstring" where
  "field_of FrameType h = frameType h"
| "field_of Weight h = weight h"
| "field_of BatteryCells h = batteryCells h"
| "field_of BatteryCapacity h = batteryCapacity h"
| "field_of MotorKv h = motorKv h"
| "field_of PropSize h = propSize h"
| "field_of EscAmps h = escAmps h"

text \<open>
  \<open>newHistory = [...prev]; newHistory[newHistory.length - 1] = m\<close>: on an empty array the
  assignment is to the property \<open>-1\<close>, which is no element of the array.
\<close>

definition replaceLast :: "Message \<Rightarrow> Message list \<Rightarrow> Message list" where
  "replaceLast m prev = (if prev = [] then [] else prev[length prev - 1 := m])"

fun apply_event :: "event \<Rightarrow> AppState \<Rightarrow> AppState" where
  "apply_event (UpdateHardware f v) s = s\<lparr>hardware := updateField f v (hardware s)\<rparr>"
| "apply_event (SetLogData v) s = s\<lparr>logData := v\<rparr>"
| "apply_event (SetImageFile v) s = s\<lparr>imageFile := v\<rparr>"
| "apply_event (SetImagePreview v) s = s\<lparr>imagePreview := v\<rparr>"
| "apply_event (SetIsAnalyzing v) s = s\<lparr>isAnalyzing := v\<rparr>"
| "apply_event (SetAnalysisResult v) s = s\<lparr>analysisResult := v\<rparr>"
| "apply_event (SetChatSession v) s = s\<lparr>chatSession := v\<rparr>"
| "apply_event (SetChatHistory v) s = s\<lparr>chatHistory := v\<rparr>"
| "apply_event (AppendChatHistory m) s = s\<lparr>chatHistory := chatHistory s @ [m]\<rparr>"
| "apply_event (ReplaceLastChatHistory m) s = s\<lparr>chatHistory := replaceLast m (chatHistory s)\<rparr>"
| "apply_event (SetChatInput v) s = s\<lparr>chatInput := v\<rparr>"
| "apply_event (SetErrorMsg v) s = s\<lparr>errorMsg := v\<rparr>"
| "apply_event (Call c) s = s"

definition apply_segment :: "segment \<Rightarrow> AppState \<Rightarrow> AppState" where
  "apply_segment seg s = fold apply_event seg s"

text \<open>The state after each segment of a handler, and the state after the last.\<close>

fun trace :: "segment list \<Rightarrow> AppState \<Rightarrow> AppState list" where
  "trace [] s = []"
| "trace (seg # segs) s = apply_segment seg s # trace segs (apply_segment seg s)"

definition exec :: "segment list \<Rightarrow> AppState \<Rightarrow> AppState" where
  "exec segs s = fold apply_segment segs s"

fun call_of :: "event \<Rightarrow> call option" where
  "call_of (Call c) = Some c"
| "call_of e = None"

definition calls :: "segment list \<Rightarrow> call list" where
  "calls segs = List.map_filter call_of (concat segs)"

fun isSetAnalysisResult :: "event \<Rightarrow> bool" where
  "isSetAnalysisResult (SetAnalysisResult v) = True"
| "isSetAnalysisResult e = False"

text \<open>The segment that starts a handler continues with what follows it without suspension.\<close>

fun continue :: "segment \<Rightarrow> segment list \<Rightarrow> segment list" where
  "continue pre [] = [pre]"
| "continue pre (seg # segs) = (pre @ seg) # segs"

subsection \<open>The report renderer (the \<open>analysisResult.split(...).map(...)\<close> of the JSX)\<close>

datatype element = H3 jsstring | H4 jsstring | Li jsstring | P jsstring

definition renderLine :: "jsstring \<Rightarrow> element" where
  "renderLine line =
     (if startsWith line (js ''###'') then H3 (replace (js ''###'') [] line)
      else if startsWith line (js ''**'') then H4 (replace_g (js ''**'') [] line)
      else if startsWith line (js ''-'') then Li (drop 1 line)
      else P line)"

definition renderLines :: "jsstring \<Rightarrow> element list" where
  "renderLines t = map renderLine (split 0x0A t)"

datatype view = Placeholder | Skeleton | Report "element list"

definition reportView :: "AppState \<Rightarrow> view" where
  "reportView s =
     (if \<not> truthy (analysisResult s) \<and> \<not> isAnalyzing s then Placeholder
      else (case analysisResult s of
              None \<Rightarrow> Skeleton
            | Some t \<Rightarrow> if t \<noteq> [] then Report (renderLines t) else Skeleton))"

subsection \<open>The handlers that do not await\<close>

definition handleInputChange :: "hw_field \<Rightarrow> jsstring \<Rightarrow> segment list" where
  "handleInputChange field v = [[UpdateHardware field v]]"

text \<open>The \<open>onChange\<close> of the log text area and of the chat input.\<close>

definition onChangeLogData :: "jsstring \<Rightarrow> segment list" where
  "onChangeLogData v = [[SetLogData v]]"

definition onChangeChatInput :: "jsstring \<Rightarrow> segment list" where
  "onChangeChatInput v = [[SetChatInput v]]"

text \<open>\<open>clearImage\<close> (it also resets the file input element, which is no part of the state).\<close>

definition clearImage :: "segment list" where
  "clearImage = [[SetImageFile None, SetImagePreview None]]"

subsection \<open>\<open>handleFileSelect\<close>\<close>

text \<open>
  What the browser provides: \<open>String.prototype.toLowerCase\<close>, the UTF-8 decoding of
  \<open>Blob.text()\<close>, and \<open>URL.createObjectURL\<close>.
\<close>

record Platform =
  toLowerCase :: "jsstring \<Rightarrow> jsstring"
  decode :: "8 word list \<Rightarrow> jsstring"
  createObjectURL :: "File \<Rightarrow> jsstring"

definition MAX_SIZE :: nat where
  "MAX_SIZE = 5 * 1024 * 1024"

definition binaryMessage :: jsstring where
  "binaryMessage =
     [0x26A0, 0xFE0F] @
     js '' BINARY FILE DETECTED (.BIN)\<newline>\<newline>'' @
     js ''Browser-based analysis cannot parse raw ArduPilot binary logs directly.\<newline>\<newline>'' @
     js ''RECOMMENDED ACTION:\<newline>1. Open Mission Planner or QGroundControl.\<newline>'' @
     js ''2. Convert the .BIN file to a .LOG (text) file.\<newline>'' @
     js ''3. Or export your Parameter List (.param).\<newline>'' @
     js ''4. Upload the text file here for analysis.''"

definition truncationSuffix :: jsstring where
  "truncationSuffix =
     js ''\<newline>\<newline>[...File truncated for browser performance. Analysis will use the first 5MB...]''"

definition readFailedMsg :: jsstring where
  "readFailedMsg = js ''Failed to read text file.''"

definition isImageName :: "jsstring \<Rightarrow> bool" where
  "isImageName n \<longleftrightarrow>
     endsWith n (js ''.jpg'') \<or> endsWith n (js ''.jpeg'') \<or> endsWith n (js ''.png'')
     \<or> endsWith n (js ''.webp'')"

text \<open>
  \<open>files\<close> is \<open>e.target.files\<close> (\<open>null\<close> or a list); \<open>readError\<close> is the rejection of the
  \<open>text()\<close> promise, if the read fails.
\<close>

definition handleFileSelect ::
  "Platform \<Rightarrow> JsError option \<Rightarrow> File list option \<Rightarrow> segment list" where
  "handleFileSelect pf readError files =
     (case files of
        None \<Rightarrow> []
      | Some [] \<Rightarrow> []
      | Some (file # _) \<Rightarrow>
          let n = toLowerCase pf (name file);
              clear = [SetImageFile None, SetImagePreview None, SetErrorMsg []]
          in if isImageName n
             then [clear @ [SetImageFile (Some file), Call (CreateObjectURL file),
                            SetImagePreview (Some (createObjectURL pf file))]]
             else if endsWith n (js ''.bin'')
             then [clear @ [SetLogData binaryMessage]]
             else
               let truncated = (size_of file > MAX_SIZE);
                   blob = (if truncated then slice (bytes file) 0 MAX_SIZE else bytes file)
               in [clear @ [Call (ReadText blob)],
                   (case readError of
                      Some err \<Rightarrow> [Call (ConsoleError err), SetErrorMsg readFailedMsg]
                    | None \<Rightarrow>
                        [SetLogData (if truncated then decode pf blob @ truncationSuffix
                                     else decode pf blob)])])"

subsection \<open>\<open>fileToBase64\<close>\<close>

text \<open>
  The argument is what the \<open>FileReader\<close> ends with: an error, or the data URL.
  \<open>result.split(',')[1]\<close> is \<open>undefined\<close> when the URL has no comma.
\<close>

definition fileToBase64 :: "JsError + jsstring \<Rightarrow> JsError + jsstring option" where
  "fileToBase64 r =
     (case r of
        Inl e \<Rightarrow> Inl e
      | Inr url \<Rightarrow>
          (case split 0x2C url of
             _ # b # _ \<Rightarrow> Inr (Some b)
           | _ \<Rightarrow> Inr None))"

subsection \<open>\<open>startAnalysis\<close>\<close>

text \<open>What the SDK and the browser answer to one run of \<open>startAnalysis\<close>.\<close>

record AnalysisEnv =
  API_KEY :: "jsstring option"
  constructorError :: "JsError option"
  readAsDataURL :: "JsError + jsstring"
  generateContentStream :: "JsError + Stream"
  chatsCreateError :: "JsError option"

definition validationMsg :: jsstring where
  "validationMsg = js ''Please upload a log file, paste data, or provide an image.''"

definition modelName :: jsstring where
  "modelName = js ''gemini-3-flash-preview''"

definition systemInstruction :: jsstring where
  "systemInstruction =
     js ''\<newline>'' @
     js ''        You are an expert ArduPilot Flight Engineer and Log Analyst. \<newline>'' @
     js ''        Your goal is to analyze the provided drone configuration, log data (text), '' @
     js ''and visual data (screenshots of maps, telemetry graphs, or HUDs) to identify '' @
     js ''configuration errors, vibration issues, power inconsistencies, and tuning '' @
     js ''opportunities.\<newline>'' @
     js ''        \<newline>'' @
     js ''        **Image Analysis Rules:**\<newline>'' @
     js ''        - If a MAP/FLIGHT PATH is provided: Look for straight lines vs wobbles. '' @
     js ''Analyze cornering overshoot. Identify if the path matches a tuned vehicle or loose '' @
     js ''navigation.\<newline>'' @
     js ''        - If a GRAPH is provided: Identify noise levels, tracking errors '' @
     js ''(Target vs Actual), or spikes in current/vibration.\<newline>'' @
     js ''        \<newline>'' @
     js ''        **Report Structure:**\<newline>'' @
     js ''        1. **Health Check**: Quick status (Green/Yellow/Red) on critical systems.\<newline>'' @
     js ''        2. **Visual Analysis**: Insights derived from the uploaded image (if any).\<newline>'' @
     js ''        3. **Configuration Analysis**: Check MOT_SPIN_ARM, battery settings, notch '' @
     js ''filters against hardware.\<newline>'' @
     js ''        4. **Actionable Recommendations**: Specific parameter changes.\<newline>'' @
     js ''      ''"

text \<open>The template literal \<open>contextPrompt\<close>; \<open>logData || "No text log provided."\<close>.\<close>

definition contextPrompt :: "HardwareContext \<Rightarrow> jsstring \<Rightarrow> jsstring" where
  "contextPrompt h l =
     js ''\<newline>        **Hardware Context:**\<newline>'' @
     js ''        - Frame Type: '' @ frameType h @ js ''\<newline>'' @
     js ''        - Weight: '' @ weight h @ js '' kg\<newline>'' @
     js ''        - Battery: '' @ batteryCells h @ js ''S '' @ batteryCapacity h @ js ''mAh\<newline>'' @
     js ''        - Motors: '' @ motorKv h @ js '' KV\<newline>'' @
     js ''        - Props: '' @ propSize h @ js '' inch\<newline>'' @
     js ''        - ESC: '' @ escAmps h @ js '' A\<newline>'' @
     js ''\<newline>'' @
     js ''        **Log Data / Parameters:**\<newline>'' @
     js ''        '' @ (if l \<noteq> [] then l else js ''No text log provided.'') @ js ''\<newline>'' @
     js ''\<newline>'' @
     js ''        Please analyze this configuration and any attached visual data.\<newline>'' @
     js ''      ''"

text \<open>\<open>e.message || "Analysis failed."\<close>\<close>

definition messageOr :: "JsError \<Rightarrow> jsstring \<Rightarrow> jsstring" where
  "messageOr e d = (case message e of None \<Rightarrow> d | Some m \<Rightarrow> if m \<noteq> [] then m else d)"

text \<open>The \<open>catch\<close> block of \<open>startAnalysis\<close>.\<close>

definition analysisFailed :: "JsError \<Rightarrow> segment" where
  "analysisFailed e =
     [Call (ConsoleError e), SetErrorMsg (messageOr e (js ''Analysis failed.'')),
      SetIsAnalyzing False]"

text \<open>
  The \<open>for await\<close> loop over the fragments, from the value \<open>fullResponse\<close> has: one segment
  for each fragment, and the value \<open>fullResponse\<close> ends with. \<open>if (chunk.text)\<close> is false
  for a fragment without text and for one whose text is empty.
\<close>

fun analysisLoop :: "jsstring \<Rightarrow> jsstring option list \<Rightarrow> segment list \<times> jsstring" where
  "analysisLoop fullResponse [] = ([], fullResponse)"
| "analysisLoop fullResponse (None # rest) =
     (case analysisLoop fullResponse rest of (segs, r) \<Rightarrow> ([] # segs, r))"
| "analysisLoop fullResponse (Some t # rest) =
     (if t \<noteq> []
      then (let fullResponse' = fullResponse @ t
            in case analysisLoop fullResponse' rest of
                 (segs, r) \<Rightarrow> ([SetAnalysisResult (Some fullResponse')] # segs, r))
      else (case analysisLoop fullResponse rest of (segs, r) \<Rightarrow> ([] # segs, r)))"

text \<open>What follows the loop when the stream ends normally.\<close>

definition analysisDone :: "AnalysisEnv \<Rightarrow> Part list \<Rightarrow> jsstring \<Rightarrow> segment" where
  "analysisDone env ps fullResponse =
     (let initialHistory = [Content User ps, Content Model [TextPart fullResponse]];
          chat = \<lparr>chat_model = modelName, history = initialHistory,
                  chat_systemInstruction = systemInstruction\<rparr>
      in [SetIsAnalyzing False, Call (ChatsCreate chat)] @
         (case chatsCreateError env of
            Some e \<Rightarrow> analysisFailed e
          | None \<Rightarrow> [SetChatSession (Some chat)]))"

text \<open>
  From the call of \<open>generateContentStream\<close> on: the call itself belongs to the segment that
  is running; every later segment is a resumption.
\<close>

definition analysisStream :: "AnalysisEnv \<Rightarrow> Part list \<Rightarrow> segment list" where
  "analysisStream env ps =
     [Call (GenerateContentStream
              \<lparr>model = modelName, contents = ps,
               config_systemInstruction = systemInstruction, thinkingBudget = 1024\<rparr>)] #
     (case generateContentStream env of
        Inl e \<Rightarrow> [analysisFailed e]
      | Inr resultStream \<Rightarrow>
          (case analysisLoop [] (chunks resultStream) of
             (segs, fullResponse) \<Rightarrow>
               segs @
               [case failure resultStream of
                  Some e \<Rightarrow> analysisFailed e
                | None \<Rightarrow> analysisDone env ps fullResponse]))"

text \<open>From the five resets after the validation to the call of the SDK's constructor.\<close>

definition analysisBegin :: "AnalysisEnv \<Rightarrow> segment" where
  "analysisBegin env =
     [SetErrorMsg [], SetIsAnalyzing True, SetAnalysisResult None, SetChatHistory [],
      SetChatSession None, Call (NewGoogleGenAI (API_KEY env))]"

definition startAnalysis :: "AnalysisEnv \<Rightarrow> AppState \<Rightarrow> segment list" where
  "startAnalysis env s =
     (if trim (logData s) = [] \<and> imageFile s = None
      then [[SetErrorMsg validationMsg]]
      else
        let textPart = TextPart (contextPrompt (hardware s) (logData s))
        in case constructorError env of
             Some e \<Rightarrow> [analysisBegin env @ analysisFailed e]
           | None \<Rightarrow>
               (case imageFile s of
                  None \<Rightarrow> continue (analysisBegin env) (analysisStream env [textPart])
                | Some file \<Rightarrow>
                    (analysisBegin env @ [Call (ReadAsDataURL file)]) #
                    (case fileToBase64 (readAsDataURL env) of
                       Inl e \<Rightarrow> [analysisFailed e]
                     | Inr base64Data \<Rightarrow>
                         analysisStream env
                           [textPart, InlineData (type file) base64Data])))"

subsection \<open>\<open>sendChatMessage\<close>\<close>

text \<open>\<open>"Error: " + e.message\<close>\<close>

definition chatErrorText :: "JsError \<Rightarrow> jsstring" where
  "chatErrorText e =
     js ''Error: '' @ (case message e of None \<Rightarrow> js ''undefined'' | Some m \<Rightarrow> m)"

fun chatLoop :: "jsstring \<Rightarrow> jsstring option list \<Rightarrow> segment list" where
  "chatLoop modelMsg [] = []"
| "chatLoop modelMsg (None # rest) = [] # chatLoop modelMsg rest"
| "chatLoop modelMsg (Some t # rest) =
     (if t \<noteq> []
      then (let modelMsg' = modelMsg @ t
            in [ReplaceLastChatHistory \<lparr>role = Model, text = modelMsg'\<rparr>] # chatLoop modelMsg' rest)
      else [] # chatLoop modelMsg rest)"

text \<open>\<open>sendMessageStream\<close> is what the session answers: a rejection, or a stream.\<close>

definition sendChatMessage :: "(JsError + Stream) \<Rightarrow> AppState \<Rightarrow> segment list" where
  "sendChatMessage sendMessageStream s =
     (if trim (chatInput s) = [] then []
      else case chatSession s of
             None \<Rightarrow> []
           | Some chat \<Rightarrow>
               let userMsg = chatInput s
               in [SetChatInput [], AppendChatHistory \<lparr>role = User, text = userMsg\<rparr>,
                   Call (SendMessageStream chat userMsg)] #
                  (case sendMessageStream of
                     Inl e \<Rightarrow> [[AppendChatHistory \<lparr>role = Model, text = chatErrorText e\<rparr>]]
                   | Inr resultStream \<Rightarrow>
                       [AppendChatHistory \<lparr>role = Model, text = []\<rparr>] #
                       chatLoop [] (chunks resultStream) @
                       [case failure resultStream of
                          Some e \<Rightarrow> [AppendChatHistory \<lparr>role = Model, text = chatErrorText e\<rparr>]
                        | None \<Rightarrow> []]))"

subsection \<open>An instance of the platform for ASCII data\<close>

text \<open>
  On names and file contents of ASCII characters, lower-casing and UTF-8 decoding are these
  functions. They serve to run the handlers on concrete inputs.
\<close>

definition asciiLower :: "jsstring \<Rightarrow> jsstring" where
  "asciiLower = map (\<lambda>c. if 0x41 \<le> c \<and> c \<le> 0x5A then c + 0x20 else c)"

definition asciiDecode :: "8 word list \<Rightarrow> jsstring" where
  "asciiDecode = map ucast"

definition asciiPlatform :: Platform where
  "asciiPlatform =
     \<lparr>toLowerCase = asciiLower, decode = asciiDecode,
      createObjectURL = (\<lambda>f. js ''blob:'' @ name f)\<rparr>"

subsection \<open>Example inputs\<close>

definition exampleImage :: File where
  "exampleImage =
     \<lparr>name = js ''Map.PNG'', type = js ''image/png'', bytes = [0x89, 0x50, 0x4E, 0x47]\<rparr>"

definition exampleLog :: File where
  "exampleLog = \<lparr>name = js ''flight.log'', type = js ''text/plain'', bytes = [0x41, 0x42]\<rparr>"

text \<open>A file of 5 MiB and one byte.\<close>

definition exampleBigLog :: File where
  "exampleBigLog =
     \<lparr>name = js ''big.txt'', type = js ''text/plain'', bytes = replicate 5242881 0x41\<rparr>"

definition exampleStream :: Stream where
  "exampleStream =
     \<lparr>chunks = [Some (js ''A''), Some (js ''B''), Some (js ''C'')], failure = None\<rparr>"

definition exampleEnv :: AnalysisEnv where
  "exampleEnv =
     \<lparr>API_KEY = Some (js ''key''), constructorError = None,
      readAsDataURL = Inr (js ''data:image/png;base64,iVBORw==''),
      generateContentStream = Inr exampleStream, chatsCreateError = None\<rparr>"

text \<open>A stream with a fragment that has no text and one whose text is empty.\<close>

definition sparseEnv :: AnalysisEnv where
  "sparseEnv =
     exampleEnv\<lparr>generateContentStream :=
       Inr \<lparr>chunks = [Some (js ''A''), None, Some [], Some (js ''B'')], failure = None\<rparr>\<rparr>"

definition exampleChat :: Chat where
  "exampleChat =
     \<lparr>chat_model = modelName, history = [], chat_systemInstruction = systemInstruction\<rparr>"

subsection \<open>The component over time\<close>

text \<open>
  Handlers that await overlap: between two segments of one, a segment of another may run,
  and the user may start a handler. A configuration is the state, the segments the analysis
  in flight has still to run, the segments the other handlers in flight have still to run,
  and a record of the most recent analysis: whether one is in flight, and how it ended.

  An analysis is a run of \<open>startAnalysis\<close> that passes the validation. It succeeds when
  nothing in its \<open>try\<close> block throws; \<open>analysisSucceeds\<close> says so from the answers of the
  SDK and of the browser alone.
\<close>

datatype analysis_status = NoAnalysis | InFlight bool | Succeeded | Failed

definition validates :: "AppState \<Rightarrow> bool" where
  "validates s \<longleftrightarrow> \<not> (trim (logData s) = [] \<and> imageFile s = None)"

definition analysisSucceeds :: "AnalysisEnv \<Rightarrow> AppState \<Rightarrow> bool" where
  "analysisSucceeds env s \<longleftrightarrow>
     constructorError env = None
     \<and> (case imageFile s of
          None \<Rightarrow> True
        | Some f \<Rightarrow> (case readAsDataURL env of Inl e \<Rightarrow> False | Inr url \<Rightarrow> True))
     \<and> (case generateContentStream env of
          Inl e \<Rightarrow> False
        | Inr resultStream \<Rightarrow> failure resultStream = None)
     \<and> chatsCreateError env = None"

record Config =
  state :: AppState
  analysisTask :: "segment list"
  lastAnalysis :: analysis_status
  otherTasks :: "segment list list"

definition initialConfig :: Config where
  "initialConfig =
     \<lparr>state = initialState, analysisTask = [], lastAnalysis = NoAnalysis, otherTasks = []\<rparr>"

fun finished :: "analysis_status \<Rightarrow> analysis_status" where
  "finished (InFlight ok) = (if ok then Succeeded else Failed)"
| "finished st = st"

text \<open>
  A handler other than the analysis is called: its first segment runs, the rest waits.
\<close>

fun launch :: "segment list \<Rightarrow> Config \<Rightarrow> Config" where
  "launch [] c = c"
| "launch (seg # rest) c =
     c\<lparr>state := apply_segment seg (state c),
       otherTasks := (if rest = [] then otherTasks c else otherTasks c @ [rest])\<rparr>"

text \<open>The \<open>i\<close>-th of the waiting handlers runs its next segment.\<close>

definition resumeOther :: "nat \<Rightarrow> Config \<Rightarrow> Config" where
  "resumeOther i c =
     (if i < length (otherTasks c)
      then (case otherTasks c ! i of
              [] \<Rightarrow> c\<lparr>otherTasks := take i (otherTasks c) @ drop (Suc i) (otherTasks c)\<rparr>
            | seg # rest \<Rightarrow>
                c\<lparr>state := apply_segment seg (state c),
                  otherTasks :=
                    (if rest = [] then take i (otherTasks c) @ drop (Suc i) (otherTasks c)
                     else (otherTasks c)[i := rest])\<rparr>)
      else c)"

text \<open>
  The Analyze button is pressed. The button is \<open>disabled={isAnalyzing}\<close>: while the flag is
  set, nothing happens. A run that the validation refuses is no analysis.
\<close>

definition launchAnalysis :: "AnalysisEnv \<Rightarrow> Config \<Rightarrow> Config" where
  "launchAnalysis env c =
     (if isAnalyzing (state c) then c
      else if \<not> validates (state c) then launch (startAnalysis env (state c)) c
      else (case startAnalysis env (state c) of
              [] \<Rightarrow> c
            | seg # rest \<Rightarrow>
                c\<lparr>state := apply_segment seg (state c),
                  analysisTask := rest,
                  lastAnalysis :=
                    (if rest = [] then finished (InFlight (analysisSucceeds env (state c)))
                     else InFlight (analysisSucceeds env (state c)))\<rparr>))"

text \<open>The analysis in flight runs its next segment; with its last segment it has ended.\<close>

definition resumeAnalysis :: "Config \<Rightarrow> Config" where
  "resumeAnalysis c =
     (case analysisTask c of
        [] \<Rightarrow> c
      | seg # rest \<Rightarrow>
          c\<lparr>state := apply_segment seg (state c),
            analysisTask := rest,
            lastAnalysis := (if rest = [] then finished (lastAnalysis c) else lastAnalysis c)\<rparr>)"

inductive reachable :: "Config \<Rightarrow> bool" where
  init: "reachable initialConfig"
| inputChange: "reachable c \<Longrightarrow> reachable (launch (handleInputChange f v) c)"
| logChange: "reachable c \<Longrightarrow> reachable (launch (onChangeLogData v) c)"
| chatInputChange: "reachable c \<Longrightarrow> reachable (launch (onChangeChatInput v) c)"
| clearImg: "reachable c \<Longrightarrow> reachable (launch clearImage c)"
| fileSelect: "reachable c \<Longrightarrow> reachable (launch (handleFileSelect pf readError files) c)"
| chatSend: "reachable c \<Longrightarrow> reachable (launch (sendChatMessage answer (state c)) c)"
| analyze: "reachable c \<Longrightarrow> reachable (launchAnalysis env c)"
| resume: "reachable c \<Longrightarrow> reachable (resumeAnalysis c)"
| other: "reachable c \<Longrightarrow> reachable (resumeOther i c)"

subsection \<open>What the segments of a handler may do to the session and to the flag\<close>

fun touches :: "event \<Rightarrow> bool" where
  "touches (SetChatSession v) = True"
| "touches (SetIsAnalyzing v) = True"
| "touches e = False"

definition neutral :: "segment \<Rightarrow> bool" where
  "neutral seg \<longleftrightarrow> (\<forall>e \<in> set seg. \<not> touches e)"

text \<open>
  The last segment of an analysis: it clears the flag, and leaves a session exactly when the
  analysis succeeded.
\<close>

definition closing :: "bool \<Rightarrow> segment \<Rightarrow> bool" where
  "closing ok seg \<longleftrightarrow>
     (\<forall>st. \<not> isAnalyzing (apply_segment seg st)
           \<and> (chatSession st = None \<longrightarrow> (chatSession (apply_segment seg st) \<noteq> None) = ok))"

definition pending :: "bool \<Rightarrow> segment list \<Rightarrow> bool" where
  "pending ok segs \<longleftrightarrow>
     segs \<noteq> [] \<and> (\<forall>seg \<in> set (butlast segs). neutral seg) \<and> closing ok (last segs)"

definition streamSucceeds :: "AnalysisEnv \<Rightarrow> bool" where
  "streamSucceeds env \<longleftrightarrow>
     (case generateContentStream env of Inl e \<Rightarrow> False | Inr rs \<Rightarrow> failure rs = None)
     \<and> chatsCreateError env = None"

definition inv :: "Config \<Rightarrow> bool" where
  "inv c \<longleftrightarrow>
     (chatSession (state c) \<noteq> None \<longleftrightarrow> lastAnalysis c = Succeeded)
     \<and> (analysisTask c \<noteq> [] \<longrightarrow>
          isAnalyzing (state c)
          \<and> (\<exists>ok. lastAnalysis c = InFlight ok \<and> pending ok (analysisTask c)))
     \<and> (analysisTask c = [] \<longrightarrow> (\<forall>ok. lastAnalysis c \<noteq> InFlight ok))
     \<and> (\<forall>t \<in> set (otherTasks c). \<forall>seg \<in> set t. neutral seg)"

section \<open>Properties\<close>

subsection \<open>Strings\<close>

lemma startsWith_Nil [simp]: "startsWith [] p \<longleftrightarrow> p = []"
  by (auto simp: startsWith_def)

lemma startsWith_pair: "startsWith s [a, b] \<longleftrightarrow> (\<exists>r. s = a # b # r)"
  by (cases s; cases "tl s") (auto simp: startsWith_def)

lemma startsWith_decomp: "startsWith s p \<Longrightarrow> s = p @ drop (length p) s"
  unfolding startsWith_def by (metis append_take_drop_id)

lemma startsWith_replace: "startsWith s p \<Longrightarrow> replace p r s = r @ drop (length p) s"
  by (cases s) (auto simp: startsWith_def)

lemma split_not_Nil: "split sep s \<noteq> []"
  by (induction s) (auto split: list.splits)

lemma join_Cons: "ls \<noteq> [] \<Longrightarrow> join sep (l # ls) = l @ sep # join sep ls"
  by (cases ls) auto

lemma join_split: "join sep (split sep s) = s"
proof (induction s)
  case Nil
  then show ?case by simp
next
  case (Cons c s)
  obtain l ls where sp: "split sep s = l # ls"
    using split_not_Nil [of sep s] by (cases "split sep s") auto
  show ?case
  proof (cases "c = sep")
    case True
    then show ?thesis using Cons by (simp add: join_Cons split_not_Nil)
  next
    case False
    then show ?thesis using Cons sp by (cases ls) auto
  qed
qed

lemma split_no_sep: "l \<in> set (split sep s) \<Longrightarrow> sep \<notin> set l"
  by (induction s arbitrary: l) (auto split: list.splits if_splits)

text \<open>Removing every match of a pattern made of one character removes that character only.\<close>

lemma replace_g_filter:
  "p \<noteq> [] \<Longrightarrow> set p \<subseteq> {c} \<Longrightarrow>
   filter (\<lambda>x. x \<noteq> c) (replace_g p [] s) = filter (\<lambda>x. x \<noteq> c) s"
proof (induction p "[]::'a list" s rule: replace_g.induct)
  case (1 pat)
  then show ?case by simp
next
  case (2 pat c' cs)
  show ?case
  proof (cases "startsWith (c' # cs) pat")
    case True
    have e: "c' # cs = pat @ drop (length pat) (c' # cs)"
      using True by (rule startsWith_decomp)
    have f: "filter (\<lambda>x. x \<noteq> c) pat = []"
      using 2(4) by (auto simp: filter_empty_conv)
    have "filter (\<lambda>x. x \<noteq> c) (c' # cs) =
          filter (\<lambda>x. x \<noteq> c) (pat @ drop (length pat) (c' # cs))"
      using e by simp
    also have "\<dots> = filter (\<lambda>x. x \<noteq> c) (drop (length pat) (c' # cs))"
      using f by simp
    finally show ?thesis using True 2 by simp
  next
    case False
    then show ?thesis using 2 by simp
  qed
qed

lemma replace_g_head:
  assumes "c \<noteq> a"
  shows "replace_g [a, a] [] (c # cs) = c # replace_g [a, a] [] cs"
  using assms by (simp add: startsWith_def)

text \<open>After the removal of every \<open>aa\<close>, scanning from the left, no \<open>aa\<close> is left.\<close>

lemma replace_g_no_pair_aux:
  "p = [a, a] \<Longrightarrow> r = [] \<Longrightarrow> \<not> startsWith (drop i (replace_g p r s)) [a, a]"
proof (induction p r s arbitrary: i rule: replace_g.induct)
  case (1 pat rep)
  then show ?case by simp
next
  case (2 pat rep c cs)
  show ?case
  proof (cases "startsWith (c # cs) pat")
    case True
    then show ?thesis using 2 by simp
  next
    case False
    then have eq: "replace_g pat rep (c # cs) = c # replace_g pat rep cs" by simp
    show ?thesis
    proof (cases i)
      case 0
      show ?thesis
      proof
        assume "startsWith (drop i (replace_g pat rep (c # cs))) [a, a]"
        then obtain t where t: "c # replace_g pat rep cs = a # a # t"
          using eq 0 by (auto simp: startsWith_pair)
        then have ca: "c = a" and rg: "replace_g pat rep cs = a # t" by auto
        from False ca 2(3) have "\<not> (\<exists>r'. cs = a # r')" by (auto simp: startsWith_pair)
        then have "cs = [] \<or> (\<exists>d ds. cs = d # ds \<and> d \<noteq> a)" by (cases cs) auto
        then show False
        proof
          assume "cs = []"
          then show False using rg by simp
        next
          assume "\<exists>d ds. cs = d # ds \<and> d \<noteq> a"
          then obtain d ds where d: "cs = d # ds" "d \<noteq> a" by blast
          have "replace_g [a, a] [] (d # ds) = d # replace_g [a, a] [] ds"
            using d(2) by (rule replace_g_head)
          then have "d # replace_g [a, a] [] ds = a # t"
            using rg d(1) 2(3) 2(4) by simp
          then show False using d(2) by simp
        qed
      qed
    next
      case (Suc j)
      then show ?thesis using eq 2(2) [OF _ 2(3) 2(4), of j] False by simp
    qed
  qed
qed

lemma replace_g_no_pair: "\<not> startsWith (drop i (replace_g [a, a] [] s)) [a, a]"
  by (rule replace_g_no_pair_aux) simp_all

lemma trim_Nil_iff: "trim s = [] \<longleftrightarrow> (\<forall>c \<in> set s. isWhiteSpace c)"
proof
  assume "trim s = []"
  then have "dropWhile isWhiteSpace (rev (dropWhile isWhiteSpace s)) = []"
    by (simp add: trim_def)
  then have "\<forall>c \<in> set (dropWhile isWhiteSpace s). isWhiteSpace c"
    by (simp add: dropWhile_eq_Nil_conv)
  moreover have "\<forall>c \<in> set (takeWhile isWhiteSpace s). isWhiteSpace c"
    by (auto dest: set_takeWhileD)
  moreover have "set s = set (takeWhile isWhiteSpace s) \<union> set (dropWhile isWhiteSpace s)"
    by (metis set_append takeWhile_dropWhile_id)
  ultimately show "\<forall>c \<in> set s. isWhiteSpace c" by blast
next
  assume "\<forall>c \<in> set s. isWhiteSpace c"
  then have d: "dropWhile isWhiteSpace s = []" by simp
  show "trim s = []" unfolding trim_def d by simp
qed

subsection \<open>Running segments\<close>

lemma exec_single [simp]: "exec [seg] s = apply_segment seg s"
  by (simp add: exec_def)

lemma exec_Nil [simp]: "exec [] s = s"
  by (simp add: exec_def)

lemma trace_eq_Nil [simp]: "trace segs s = [] \<longleftrightarrow> segs = []"
  by (cases segs) auto

lemma length_trace [simp]: "length (trace segs s) = length segs"
  by (induction segs arbitrary: s) auto

lemma exec_last_trace: "segs \<noteq> [] \<Longrightarrow> exec segs s = last (trace segs s)"
proof (induction segs arbitrary: s)
  case Nil
  then show ?case by simp
next
  case (Cons seg segs)
  then show ?case by (cases "segs = []") (auto simp: exec_def)
qed

lemma replaceLast_snoc [simp]: "replaceLast m (xs @ [x]) = xs @ [m]"
  by (simp add: replaceLast_def)

lemma replaceLast_snoc2 [simp]: "replaceLast m (xs @ [x, y]) = xs @ [x, m]"
  using replaceLast_snoc [of m "xs @ [x]" y] by simp

lemma replaceLast_simps:
  "replaceLast m [] = []"
  "replaceLast m [x] = [m]"
  "replaceLast m (x # y # ys) = x # replaceLast m (y # ys)"
  by (simp_all add: replaceLast_def)

subsection \<open>The report renderer\<close>

lemma renderLine_heading:
  "startsWith l (js ''###'') \<Longrightarrow> renderLine l = H3 (drop 3 l)"
  by (simp add: renderLine_def startsWith_replace js_def numeral_3_eq_3)

lemma renderLine_subheading:
  "startsWith l (js ''**'') \<Longrightarrow> renderLine l = H4 (replace_g (js ''**'') [] l)"
proof -
  assume a: "startsWith l (js ''**'')"
  then obtain r where "l = 0x2A # 0x2A # r"
    by (auto simp: js_def startsWith_pair)
  then have "\<not> startsWith l (js ''###'')"
    by (simp add: js_def startsWith_def)
  then show ?thesis using a by (simp add: renderLine_def)
qed

lemma renderLine_item: "renderLine (0x2D # r) = Li r"
  by (simp add: renderLine_def js_def startsWith_def)

lemma renderLine_paragraph:
  "\<not> startsWith l (js ''###'') \<Longrightarrow> \<not> startsWith l (js ''**'') \<Longrightarrow>
   \<not> startsWith l (js ''-'') \<Longrightarrow> renderLine l = P l"
  by (simp add: renderLine_def)

lemma subheading_text:
  "filter (\<lambda>x. x \<noteq> 0x2A) (replace_g (js ''**'') [] l) = filter (\<lambda>x. x \<noteq> 0x2A) l"
  "\<not> startsWith (drop i (replace_g (js ''**'') [] l)) (js ''**'')"
  using replace_g_filter [of "js ''**''" "0x2A" l] replace_g_no_pair [of i "0x2A" l]
  by (simp_all add: js_def)

text \<open>
  C4. The report is rendered line by line: the text is split at the line feeds (the lines,
  joined by line feeds, are the text, and no line holds a line feed) and each line is
  classified by itself. A line that starts with \<open>###\<close> is a heading whose text is the line
  without its first three characters. A line that starts with \<open>**\<close> is a sub-heading whose
  text is the line with every \<open>**\<close> removed: only asterisks are removed, and no \<open>**\<close> is
  left. A line that starts with \<open>-\<close> is a list item whose text is the rest of the line.
  Every other line is a paragraph with the line as its text, the empty line too. The line
  \<open>### Health Check\<close> is the heading \<open> Health Check\<close>.
\<close>

theorem renderer_per_line:
  "renderLines t = map renderLine (split 0x0A t)
   \<and> join 0x0A (split 0x0A t) = t
   \<and> (\<forall>l \<in> set (split 0x0A t). 0x0A \<notin> set l)
   \<and> (analysisResult s = Some t \<and> t \<noteq> [] \<longrightarrow> reportView s = Report (renderLines t))
   \<and> (startsWith l (js ''###'') \<longrightarrow> renderLine l = H3 (drop 3 l))
   \<and> (startsWith l (js ''**'') \<longrightarrow>
        renderLine l = H4 (replace_g (js ''**'') [] l)
        \<and> filter (\<lambda>x. x \<noteq> 0x2A) (replace_g (js ''**'') [] l) = filter (\<lambda>x. x \<noteq> 0x2A) l
        \<and> (\<forall>i. \<not> startsWith (drop i (replace_g (js ''**'') [] l)) (js ''**'')))
   \<and> (startsWith l (js ''-'') \<longrightarrow> renderLine l = Li (drop 1 l))
   \<and> (\<not> startsWith l (js ''###'') \<and> \<not> startsWith l (js ''**'') \<and> \<not> startsWith l (js ''-'')
        \<longrightarrow> renderLine l = P l)
   \<and> renderLine [] = P []
   \<and> renderLine (js ''### Health Check'') = H3 (js '' Health Check'')"
proof -
  have a: "renderLines t = map renderLine (split 0x0A t)"
    by (simp add: renderLines_def)
  have b: "\<forall>l \<in> set (split 0x0A t). 0x0A \<notin> set l"
    using split_no_sep [of _ "0x0A" t] by blast
  have c: "analysisResult s = Some t \<and> t \<noteq> [] \<longrightarrow> reportView s = Report (renderLines t)"
    by (simp add: reportView_def)
  have d: "startsWith l (js ''-'') \<longrightarrow> renderLine l = Li (drop 1 l)"
    by (cases l) (auto simp: renderLine_def js_def startsWith_def)
  have e: "renderLine [] = P []"
    by (simp add: renderLine_def js_def)
  have f: "renderLine (js ''### Health Check'') = H3 (js '' Health Check'')"
    by (simp add: renderLine_def js_def startsWith_def)
  show ?thesis
    using a b c d e f join_split [of "0x0A" t] renderLine_heading [of l]
      renderLine_subheading [of l] subheading_text(1) [of l] subheading_text(2) [of _ l]
      renderLine_paragraph [of l]
    by blast
qed

theorem renderer_per_line_witness:
  "startsWith (js ''**Health** ok'') (js ''**'')
   \<and> renderLine (js ''**Health** ok'') = H4 (js ''Health ok'')
   \<and> startsWith (js ''- item'') (js ''-'')
   \<and> renderLine (js ''- item'') = Li (js '' item'')
   \<and> \<not> startsWith (js ''text'') (js ''###'') \<and> \<not> startsWith (js ''text'') (js ''**'')
   \<and> \<not> startsWith (js ''text'') (js ''-'')
   \<and> renderLine (js ''text'') = P (js ''text'')
   \<and> analysisResult (initialState\<lparr>analysisResult := Some (js ''### A\<newline>\<newline>text'')\<rparr>)
        = Some (js ''### A\<newline>\<newline>text'')
   \<and> js ''### A\<newline>\<newline>text'' \<noteq> []
   \<and> reportView (initialState\<lparr>analysisResult := Some (js ''### A\<newline>\<newline>text'')\<rparr>)
        = Report [H3 (js '' A''), P [], P (js ''text'')]"
  using renderer_per_line [of "js ''### A\<newline>\<newline>text''"
        "initialState\<lparr>analysisResult := Some (js ''### A\<newline>\<newline>text'')\<rparr>"
        "js ''**Health** ok''"]
    renderer_per_line [of "[]" initialState "js ''- item''"]
    renderer_per_line [of "[]" initialState "js ''text''"]
  by (simp add: js_def startsWith_def renderLine_def)

subsection \<open>The hardware form\<close>

text \<open>
  C10. \<open>handleInputChange f v\<close> sets the field \<open>f\<close> of the hardware context to \<open>v\<close> and leaves
  its other fields as they were; nothing else of the state changes.
\<close>

theorem handleInputChange_frame:
  "field_of f (hardware (exec (handleInputChange f v) s)) = v
   \<and> (\<forall>g. g \<noteq> f \<longrightarrow>
         field_of g (hardware (exec (handleInputChange f v) s)) = field_of g (hardware s))
   \<and> exec (handleInputChange f v) s = s\<lparr>hardware := hardware (exec (handleInputChange f v) s)\<rparr>"
proof -
  have ex: "exec (handleInputChange f v) s = s\<lparr>hardware := updateField f v (hardware s)\<rparr>"
    by (simp add: exec_def handleInputChange_def apply_segment_def)
  have 1: "field_of f (updateField f v h) = v" for h
    by (cases f) simp_all
  have 2: "g \<noteq> f \<Longrightarrow> field_of g (updateField f v h) = field_of g h" for g h
    by (cases f; cases g) simp_all
  show ?thesis using 1 2 by (simp add: ex)
qed

theorem handleInputChange_frame_witness:
  "field_of Weight (hardware (exec (handleInputChange Weight (js ''1.5'')) initialState)) = js ''1.5''
   \<and> FrameType \<noteq> Weight
   \<and> field_of FrameType (hardware (exec (handleInputChange Weight (js ''1.5'')) initialState))
       = js ''Quad X''"
  using handleInputChange_frame [of Weight "js ''1.5''" initialState]
  by (simp add: initialState_def exec_def handleInputChange_def apply_segment_def)

subsection \<open>File selection\<close>

text \<open>
  C9. When the lower-cased name of the selected file ends in \<open>.jpg\<close>, \<open>.jpeg\<close>, \<open>.png\<close> or
  \<open>.webp\<close>, \<open>handleFileSelect\<close> reads no text (whatever a read would have answered), runs in
  one segment, and ends with the selected file as the image attachment, with its preview, in
  place of whatever attachment there was; the error message is cleared and nothing else
  changes.
\<close>

theorem image_select:
  assumes "endsWith (toLowerCase pf (name file)) (js ''.jpg'')
           \<or> endsWith (toLowerCase pf (name file)) (js ''.jpeg'')
           \<or> endsWith (toLowerCase pf (name file)) (js ''.png'')
           \<or> endsWith (toLowerCase pf (name file)) (js ''.webp'')"
  shows "(\<forall>bs. ReadText bs \<notin> set (calls (handleFileSelect pf readError (Some (file # rest)))))
         \<and> length (handleFileSelect pf readError (Some (file # rest))) = 1
         \<and> exec (handleFileSelect pf readError (Some (file # rest))) s
             = s\<lparr>imageFile := Some file, imagePreview := Some (createObjectURL pf file),
                  errorMsg := []\<rparr>"
  using assms
  by (simp add: handleFileSelect_def isImageName_def calls_def List.map_filter_simps
      apply_segment_def)

theorem image_select_witness:
  "endsWith (toLowerCase asciiPlatform (name exampleImage)) (js ''.png'')
   \<and> exec (handleFileSelect asciiPlatform None (Some [exampleImage]))
        (initialState\<lparr>imageFile := Some exampleLog, imagePreview := Some (js ''blob:old'')\<rparr>)
       = initialState\<lparr>imageFile := Some exampleImage, imagePreview := Some (js ''blob:Map.PNG'')\<rparr>"
  using image_select [of asciiPlatform exampleImage None "[]"
      "initialState\<lparr>imageFile := Some exampleLog, imagePreview := Some (js ''blob:old'')\<rparr>"]
  by (simp add: asciiPlatform_def asciiLower_def exampleImage_def js_def endsWith_def
      initialState_def)

text \<open>
  C3. For a selected file that is neither an image nor a \<open>.bin\<close> file and whose read succeeds:
  when its size is at most 5 MiB the log text becomes the decoding of all its bytes, and when
  its size exceeds 5 MiB the log text becomes the decoding of its first 5 MiB of bytes,
  followed by the truncation notice.
\<close>

theorem text_select:
  assumes "\<not> isImageName (toLowerCase pf (name file))"
    and "\<not> endsWith (toLowerCase pf (name file)) (js ''.bin'')"
  shows "(size_of file \<le> 5 * 1024 * 1024 \<longrightarrow>
            logData (exec (handleFileSelect pf None (Some (file # rest))) s) = decode pf (bytes file))
       \<and> (size_of file > 5 * 1024 * 1024 \<longrightarrow>
            logData (exec (handleFileSelect pf None (Some (file # rest))) s)
              = decode pf (take (5 * 1024 * 1024) (bytes file)) @ truncationSuffix)"
  using assms
  by (simp add: handleFileSelect_def exec_def apply_segment_def MAX_SIZE_def slice_def Let_def)

theorem text_select_witness:
  "\<not> isImageName (toLowerCase asciiPlatform (name exampleLog))
   \<and> \<not> endsWith (toLowerCase asciiPlatform (name exampleLog)) (js ''.bin'')
   \<and> size_of exampleLog \<le> 5 * 1024 * 1024
   \<and> logData (exec (handleFileSelect asciiPlatform None (Some [exampleLog])) initialState) = js ''AB''
   \<and> \<not> isImageName (toLowerCase asciiPlatform (name exampleBigLog))
   \<and> \<not> endsWith (toLowerCase asciiPlatform (name exampleBigLog)) (js ''.bin'')
   \<and> size_of exampleBigLog > 5 * 1024 * 1024
   \<and> logData (exec (handleFileSelect asciiPlatform None (Some [exampleBigLog])) initialState)
       = replicate 5242880 0x41 @ truncationSuffix"
  using text_select [of asciiPlatform exampleLog "[]" initialState]
    text_select [of asciiPlatform exampleBigLog "[]" initialState]
  by (simp add: asciiPlatform_def asciiLower_def asciiDecode_def exampleLog_def exampleBigLog_def
      js_def endsWith_def isImageName_def size_of_def)

text \<open>
  C8, as the code has it. When the read of a selected text-like file fails, the state ends
  as it was before the selection except that the error message is \<open>Failed to read text file.\<close>
  and that the image attachment, file handle and preview, is cleared: the log text and
  everything else are as before.
\<close>

theorem read_failure:
  assumes "\<not> isImageName (toLowerCase pf (name file))"
    and "\<not> endsWith (toLowerCase pf (name file)) (js ''.bin'')"
  shows "exec (handleFileSelect pf (Some err) (Some (file # rest))) s
          = s\<lparr>imageFile := None, imagePreview := None, errorMsg := readFailedMsg\<rparr>"
  using assms
  by (simp add: handleFileSelect_def exec_def apply_segment_def Let_def)

theorem read_failure_witness:
  "\<not> isImageName (toLowerCase asciiPlatform (name exampleLog))
   \<and> \<not> endsWith (toLowerCase asciiPlatform (name exampleLog)) (js ''.bin'')
   \<and> exec (handleFileSelect asciiPlatform (Some (JsError None)) (Some [exampleLog]))
        (initialState\<lparr>logData := js ''old'', imageFile := Some exampleImage,
                       imagePreview := Some (js ''blob:Map.PNG'')\<rparr>)
       = initialState\<lparr>logData := js ''old'', errorMsg := readFailedMsg\<rparr>"
  using read_failure [of asciiPlatform exampleLog "JsError None" "[]"
      "initialState\<lparr>logData := js ''old'', imageFile := Some exampleImage,
                       imagePreview := Some (js ''blob:Map.PNG'')\<rparr>"]
  by (simp add: asciiPlatform_def asciiLower_def exampleLog_def js_def endsWith_def
      isImageName_def initialState_def)

text \<open>
  C8, as stated, fails: a failed read of \<open>flight.log\<close> after \<open>Map.PNG\<close> was selected leaves no
  image file, where the claim has the earlier attachment untouched.
\<close>

theorem read_failure_counterexample:
  "imageFile (exec (handleFileSelect asciiPlatform (Some (JsError None)) (Some [exampleLog]))
               (initialState\<lparr>imageFile := Some exampleImage,
                              imagePreview := Some (js ''blob:Map.PNG'')\<rparr>))
     \<noteq> imageFile (initialState\<lparr>imageFile := Some exampleImage,
                                imagePreview := Some (js ''blob:Map.PNG'')\<rparr>)"
  by (simp add: handleFileSelect_def asciiPlatform_def asciiLower_def exampleLog_def js_def
      endsWith_def isImageName_def exec_def apply_segment_def size_of_def MAX_SIZE_def)

subsection \<open>Starting an analysis\<close>

text \<open>
  C2. When the log text is empty or white space only and there is no image, \<open>startAnalysis\<close>
  is the single setter call of the validation message: there is no call to the SDK or to the
  browser, and the state ends as it was but for the error message; in particular the
  analysis result, the chat session and the chat history are as before.
\<close>

theorem startAnalysis_validation:
  assumes "\<forall>c \<in> set (logData s). isWhiteSpace c" and "imageFile s = None"
  shows "startAnalysis env s = [[SetErrorMsg validationMsg]]
         \<and> calls (startAnalysis env s) = []
         \<and> trace (startAnalysis env s) s = [s\<lparr>errorMsg := validationMsg\<rparr>]
         \<and> exec (startAnalysis env s) s = s\<lparr>errorMsg := validationMsg\<rparr>
         \<and> analysisResult (exec (startAnalysis env s) s) = analysisResult s
         \<and> chatSession (exec (startAnalysis env s) s) = chatSession s
         \<and> chatHistory (exec (startAnalysis env s) s) = chatHistory s"
proof -
  have "trim (logData s) = []" using assms(1) by (simp add: trim_Nil_iff)
  then have "startAnalysis env s = [[SetErrorMsg validationMsg]]"
    using assms(2) by (simp add: startAnalysis_def)
  then show ?thesis
    by (simp add: calls_def List.map_filter_simps apply_segment_def)
qed

theorem startAnalysis_validation_witness:
  "trim (logData (initialState\<lparr>logData := js '' \<newline>''\<rparr>)) = []
   \<and> imageFile (initialState\<lparr>logData := js '' \<newline>''\<rparr>) = None
   \<and> startAnalysis exampleEnv (initialState\<lparr>logData := js '' \<newline>''\<rparr>)
       = [[SetErrorMsg validationMsg]]
   \<and> calls (startAnalysis exampleEnv (initialState\<lparr>logData := js '' \<newline>''\<rparr>)) = []"
  using startAnalysis_validation [of "initialState\<lparr>logData := js '' \<newline>''\<rparr>" exampleEnv]
  by (simp add: initialState_def js_def isWhiteSpace_def trim_def calls_def
      List.map_filter_simps)

subsection \<open>The fragments of the analysis stream\<close>

lemma analysisLoop_length: "length (fst (analysisLoop full cs)) = length cs"
  by (induction full cs rule: analysisLoop.induct) (auto split: prod.splits simp: Let_def)

lemma analysisLoop_result: "snd (analysisLoop full cs) = full @ concat (map textOf cs)"
  by (induction full cs rule: analysisLoop.induct) (auto split: prod.splits simp: Let_def)

lemma analysisLoop_nth:
  "i < length cs \<Longrightarrow>
   fst (analysisLoop full cs) ! i =
     (if truthy (cs ! i) then [SetAnalysisResult (Some (full @ concat (map textOf (take (Suc i) cs))))]
      else [])"
proof (induction full cs arbitrary: i rule: analysisLoop.induct)
  case (1 fullResponse)
  then show ?case by simp
next
  case (2 fullResponse rest)
  then show ?case by (cases i) (auto split: prod.splits)
next
  case (3 fullResponse t rest)
  then show ?case by (cases i) (auto split: prod.splits simp: Let_def)
qed

lemma startAnalysis_segments:
  assumes v: "validates s" and ctor: "constructorError env = None"
    and str: "generateContentStream env = Inr rs"
    and img: "imageFile s \<noteq> None \<longrightarrow> (\<exists>d. fileToBase64 (readAsDataURL env) = Inr d)"
  shows "\<exists>pre final. startAnalysis env s = pre @ fst (analysisLoop [] (chunks rs)) @ [final]
           \<and> length pre = (if imageFile s = None then 1 else 2)"
proof (cases "imageFile s")
  case None
  obtain segs full where lp: "analysisLoop [] (chunks rs) = (segs, full)"
    by (cases "analysisLoop [] (chunks rs)") auto
  have "startAnalysis env s =
      [analysisBegin env @ [Call (GenerateContentStream
              \<lparr>model = modelName, contents = [TextPart (contextPrompt (hardware s) (logData s))],
               config_systemInstruction = systemInstruction, thinkingBudget = 1024\<rparr>)]]
      @ segs @ [case failure rs of
                  Some e \<Rightarrow> analysisFailed e
                | None \<Rightarrow> analysisDone env [TextPart (contextPrompt (hardware s) (logData s))] full]"
    using v ctor str None lp
    by (auto simp: startAnalysis_def validates_def analysisStream_def Let_def)
  then show ?thesis using None lp by (metis fst_conv length_Cons list.size(3) One_nat_def)
next
  case (Some f)
  then obtain d where d: "fileToBase64 (readAsDataURL env) = Inr d" using img by auto
  obtain segs full where lp: "analysisLoop [] (chunks rs) = (segs, full)"
    by (cases "analysisLoop [] (chunks rs)") auto
  have "startAnalysis env s =
      [analysisBegin env @ [Call (ReadAsDataURL f)],
       [Call (GenerateContentStream
              \<lparr>model = modelName,
               contents = [TextPart (contextPrompt (hardware s) (logData s)), InlineData (type f) d],
               config_systemInstruction = systemInstruction, thinkingBudget = 1024\<rparr>)]]
      @ segs @ [case failure rs of
                  Some e \<Rightarrow> analysisFailed e
                | None \<Rightarrow> analysisDone env
                    [TextPart (contextPrompt (hardware s) (logData s)), InlineData (type f) d] full]"
    using v ctor str Some lp d
    by (auto simp: startAnalysis_def validates_def analysisStream_def Let_def)
  moreover have "length [analysisBegin env @ [Call (ReadAsDataURL f)],
       [Call (GenerateContentStream
              \<lparr>model = modelName,
               contents = [TextPart (contextPrompt (hardware s) (logData s)), InlineData (type f) d],
               config_systemInstruction = systemInstruction, thinkingBudget = 1024\<rparr>)]] = 2"
    by simp
  ultimately show ?thesis using Some lp by (metis fst_conv option.distinct(1))
qed

text \<open>
  C7, as the code has it. In a run of \<open>startAnalysis\<close> that passes the validation and opens
  the stream, the segments after the first \<open>k\<close> (one, or two when an image is read) are one
  for each fragment, in order, and one more for the end of the stream. The segment of a
  fragment with a non-empty text is exactly one setter call, of the analysis result to the
  concatenation of the texts up to and including this fragment. The segment of a fragment
  whose text is absent or empty is empty: it changes no state.
\<close>

theorem one_update_per_text_fragment:
  assumes v: "\<not> (\<forall>ch \<in> set (logData s). isWhiteSpace ch) \<or> imageFile s \<noteq> None"
    and ctor: "constructorError env = None"
    and str: "generateContentStream env = Inr rs"
    and img: "imageFile s \<noteq> None \<longrightarrow> (\<exists>d. fileToBase64 (readAsDataURL env) = Inr d)"
    and k: "k = (if imageFile s = None then 1 else 2)"
  shows "length (startAnalysis env s) = k + length (chunks rs) + 1
     \<and> (\<forall>i < length (chunks rs).
          startAnalysis env s ! (k + i) =
            (if truthy (chunks rs ! i)
             then [SetAnalysisResult (Some (concat (map textOf (take (Suc i) (chunks rs)))))]
             else []))"
proof -
  have "validates s" using v by (auto simp: validates_def trim_Nil_iff)
  then obtain pre final where sa: "startAnalysis env s = pre @ fst (analysisLoop [] (chunks rs)) @ [final]"
    and lp: "length pre = k"
    using startAnalysis_segments [OF _ ctor str img] k by blast
  have len: "length (startAnalysis env s) = k + length (chunks rs) + 1"
    using sa lp by (simp add: analysisLoop_length)
  have nth: "startAnalysis env s ! (k + i) = fst (analysisLoop [] (chunks rs)) ! i"
    if "i < length (chunks rs)" for i
    using that sa lp by (simp add: nth_append analysisLoop_length)
  show ?thesis using len nth analysisLoop_nth [of _ "chunks rs" "[]"] by simp
qed

theorem one_update_per_text_fragment_witness:
  "length (startAnalysis sparseEnv (initialState\<lparr>logData := js ''PARAM 1''\<rparr>)) = 6
   \<and> startAnalysis sparseEnv (initialState\<lparr>logData := js ''PARAM 1''\<rparr>) ! 1
       = [SetAnalysisResult (Some (js ''A''))]
   \<and> startAnalysis sparseEnv (initialState\<lparr>logData := js ''PARAM 1''\<rparr>) ! 2 = []
   \<and> startAnalysis sparseEnv (initialState\<lparr>logData := js ''PARAM 1''\<rparr>) ! 4
       = [SetAnalysisResult (Some (js ''A'' @ js ''B''))]"
proof -
  have v: "\<not> (\<forall>ch \<in> set (logData (initialState\<lparr>logData := js ''PARAM 1''\<rparr>)). isWhiteSpace ch)
           \<or> imageFile (initialState\<lparr>logData := js ''PARAM 1''\<rparr>) \<noteq> None"
    by (simp add: js_def isWhiteSpace_def)
  have ctor: "constructorError sparseEnv = None"
    by (simp add: sparseEnv_def exampleEnv_def)
  have str: "generateContentStream sparseEnv
      = Inr \<lparr>chunks = [Some (js ''A''), None, Some [], Some (js ''B'')], failure = None\<rparr>"
    by (simp add: sparseEnv_def)
  have img: "imageFile (initialState\<lparr>logData := js ''PARAM 1''\<rparr>) \<noteq> None \<longrightarrow>
      (\<exists>d. fileToBase64 (readAsDataURL sparseEnv) = Inr d)"
    by (simp add: initialState_def)
  have k: "(1::nat) = (if imageFile (initialState\<lparr>logData := js ''PARAM 1''\<rparr>) = None then 1 else 2)"
    by (simp add: initialState_def)
  note r = one_update_per_text_fragment [OF v ctor str img k]
  have n: "i < 4 \<Longrightarrow>
      startAnalysis sparseEnv (initialState\<lparr>logData := js ''PARAM 1''\<rparr>) ! (1 + i) =
        (if truthy ([Some (js ''A''), None, Some [], Some (js ''B'')] ! i)
         then [SetAnalysisResult (Some (concat (map textOf
                 (take (Suc i) [Some (js ''A''), None, Some [], Some (js ''B'')]))))]
         else [])" for i
    using r by simp
  have ne: "js ''A'' \<noteq> []" "js ''B'' \<noteq> []"
    by (simp_all add: js_def)
  have len: "length (startAnalysis sparseEnv (initialState\<lparr>logData := js ''PARAM 1''\<rparr>)) = 6"
    using r by simp
  have f1: "startAnalysis sparseEnv (initialState\<lparr>logData := js ''PARAM 1''\<rparr>) ! 1
       = [SetAnalysisResult (Some (js ''A''))]"
    using n [of 0] ne by simp
  have "startAnalysis sparseEnv (initialState\<lparr>logData := js ''PARAM 1''\<rparr>) ! (1 + 1) = []"
    using n [of 1] by simp
  then have f2: "startAnalysis sparseEnv (initialState\<lparr>logData := js ''PARAM 1''\<rparr>) ! 2 = []"
    by (simp add: eval_nat_numeral)
  have "startAnalysis sparseEnv (initialState\<lparr>logData := js ''PARAM 1''\<rparr>) ! (1 + 3)
       = [SetAnalysisResult (Some (js ''A'' @ js ''B''))]"
    using n [of 3] ne by (simp add: numeral_3_eq_3)
  then have f4: "startAnalysis sparseEnv (initialState\<lparr>logData := js ''PARAM 1''\<rparr>) ! 4
       = [SetAnalysisResult (Some (js ''A'' @ js ''B''))]"
    by (simp add: eval_nat_numeral)
  show ?thesis
    using len f1 f2 f4 by blast
qed

text \<open>
  C7, as stated, fails. For the fragments \<open>A\<close>, one without text, one with the empty text
  and \<open>B\<close>, the segments of the second and of the third fragment are empty, and the run
  sets the analysis result twice from its stream, not four times.
\<close>

theorem fragment_without_text_counterexample:
  "startAnalysis sparseEnv (initialState\<lparr>logData := js ''PARAM 1''\<rparr>) ! 2 = []
   \<and> startAnalysis sparseEnv (initialState\<lparr>logData := js ''PARAM 1''\<rparr>) ! 3 = []
   \<and> length (filter isSetAnalysisResult
        (concat (tl (startAnalysis sparseEnv (initialState\<lparr>logData := js ''PARAM 1''\<rparr>)))))
      \<noteq> length [Some (js ''A''), None, Some [], Some (js ''B'')]"
proof -
  have t: "trim (logData (initialState\<lparr>logData := js ''PARAM 1''\<rparr>)) \<noteq> []"
    by (simp add: trim_Nil_iff js_def isWhiteSpace_def)
  have "startAnalysis sparseEnv (initialState\<lparr>logData := js ''PARAM 1''\<rparr>)
     = [analysisBegin sparseEnv @
          [Call (GenerateContentStream
             \<lparr>model = modelName,
              contents = [TextPart (contextPrompt (hardware initialState) (js ''PARAM 1''))],
              config_systemInstruction = systemInstruction, thinkingBudget = 1024\<rparr>)],
        [SetAnalysisResult (Some (js ''A''))], [], [],
        [SetAnalysisResult (Some (js ''A'' @ js ''B''))],
        analysisDone sparseEnv
          [TextPart (contextPrompt (hardware initialState) (js ''PARAM 1''))] (js ''A'' @ js ''B'')]"
    using t
    by (simp add: startAnalysis_def analysisStream_def sparseEnv_def exampleEnv_def Let_def js_def
        initialState_def)
  moreover have "chatsCreateError sparseEnv = None"
    by (simp add: sparseEnv_def exampleEnv_def)
  ultimately show ?thesis
    by (simp add: analysisDone_def analysisBegin_def Let_def)
qed

text \<open>
  C1. In a run of \<open>startAnalysis\<close> that passes the validation and in which nothing fails, for
  the stream of the three non-empty fragments \<open>a\<close>, \<open>b\<close>, \<open>c\<close>: the analysis result, observed
  after each segment, is reset and then takes the values \<open>a\<close>, \<open>ab\<close>, \<open>abc\<close>, in this order and
  no other; the last four segments are the three updates and then the creation of the chat;
  the chat session is absent after every segment but the last; and the session it ends with
  was created with a history of two turns, the parts of the request as the user's and the
  text \<open>abc\<close> as the model's, and with the system instruction of the request.
\<close>

theorem analysis_stream_ABC:
  assumes valid: "\<not> (\<forall>ch \<in> set (logData s). isWhiteSpace ch) \<or> imageFile s \<noteq> None"
    and ctor: "constructorError env = None"
    and img: "\<forall>file. imageFile s = Some file \<longrightarrow> fileToBase64 (readAsDataURL env) = Inr d"
    and str: "generateContentStream env = Inr \<lparr>chunks = [Some a, Some b, Some c], failure = None\<rparr>"
    and ne: "a \<noteq> []" "b \<noteq> []" "c \<noteq> []"
    and create: "chatsCreateError env = None"
    and ps: "ps = TextPart (contextPrompt (hardware s) (logData s)) #
                  (case imageFile s of None \<Rightarrow> [] | Some file \<Rightarrow> [InlineData (type file) d])"
    and chat: "chat = \<lparr>chat_model = modelName,
                        history = [Content User ps, Content Model [TextPart (a @ b @ c)]],
                        chat_systemInstruction = systemInstruction\<rparr>"
  shows "remdups_adj (map analysisResult (trace (startAnalysis env s) s))
           = [None, Some a, Some (a @ b), Some (a @ b @ c)]
       \<and> (\<forall>st \<in> set (butlast (trace (startAnalysis env s) s)). chatSession st = None)
       \<and> chatSession (exec (startAnalysis env s) s) = Some chat
       \<and> drop (length (startAnalysis env s) - 4) (startAnalysis env s)
           = [[SetAnalysisResult (Some a)], [SetAnalysisResult (Some (a @ b))],
              [SetAnalysisResult (Some (a @ b @ c))],
              [SetIsAnalyzing False, Call (ChatsCreate chat), SetChatSession (Some chat)]]
       \<and> calls (startAnalysis env s)
           = NewGoogleGenAI (API_KEY env) #
             (case imageFile s of None \<Rightarrow> [] | Some file \<Rightarrow> [ReadAsDataURL file]) @
             [GenerateContentStream
                \<lparr>model = modelName, contents = ps,
                 config_systemInstruction = systemInstruction, thinkingBudget = 1024\<rparr>,
              ChatsCreate chat]"
proof (cases "imageFile s")
  case None
  then have "trim (logData s) \<noteq> []" using valid by (simp add: trim_Nil_iff)
  then have sa: "startAnalysis env s =
    [[SetErrorMsg [], SetIsAnalyzing True, SetAnalysisResult None, SetChatHistory [],
      SetChatSession None, Call (NewGoogleGenAI (API_KEY env)),
      Call (GenerateContentStream \<lparr>model = modelName, contents = ps,
                 config_systemInstruction = systemInstruction, thinkingBudget = 1024\<rparr>)],
     [SetAnalysisResult (Some a)], [SetAnalysisResult (Some (a @ b))],
     [SetAnalysisResult (Some (a @ b @ c))],
     [SetIsAnalyzing False, Call (ChatsCreate chat), SetChatSession (Some chat)]]"
    using None ctor str ne create ps chat
    by (simp add: startAnalysis_def analysisBegin_def analysisStream_def analysisDone_def Let_def)
  show ?thesis
    unfolding sa using None ne
    by (simp add: apply_segment_def exec_def calls_def List.map_filter_simps)
next
  case (Some f)
  then have sa: "startAnalysis env s =
    [[SetErrorMsg [], SetIsAnalyzing True, SetAnalysisResult None, SetChatHistory [],
      SetChatSession None, Call (NewGoogleGenAI (API_KEY env)), Call (ReadAsDataURL f)],
     [Call (GenerateContentStream \<lparr>model = modelName, contents = ps,
                 config_systemInstruction = systemInstruction, thinkingBudget = 1024\<rparr>)],
     [SetAnalysisResult (Some a)], [SetAnalysisResult (Some (a @ b))],
     [SetAnalysisResult (Some (a @ b @ c))],
     [SetIsAnalyzing False, Call (ChatsCreate chat), SetChatSession (Some chat)]]"
    using ctor str ne create ps chat img
    by (simp add: startAnalysis_def analysisBegin_def analysisStream_def analysisDone_def Let_def)
  show ?thesis
    unfolding sa using Some ne
    by (simp add: apply_segment_def exec_def calls_def List.map_filter_simps)
qed

theorem analysis_stream_ABC_witness:
  "remdups_adj (map analysisResult
      (trace (startAnalysis exampleEnv (initialState\<lparr>logData := js ''PARAM 1''\<rparr>))
             (initialState\<lparr>logData := js ''PARAM 1''\<rparr>)))
     = [None, Some (js ''A''), Some (js ''A'' @ js ''B''), Some (js ''A'' @ js ''B'' @ js ''C'')]
   \<and> chatSession (exec (startAnalysis exampleEnv (initialState\<lparr>logData := js ''PARAM 1''\<rparr>))
                       (initialState\<lparr>logData := js ''PARAM 1''\<rparr>))
     = Some \<lparr>chat_model = modelName,
             history = [Content User [TextPart (contextPrompt (hardware initialState) (js ''PARAM 1''))],
                        Content Model [TextPart (js ''A'' @ js ''B'' @ js ''C'')]],
             chat_systemInstruction = systemInstruction\<rparr>
   \<and> chatSession (exec (startAnalysis exampleEnv (initialState\<lparr>imageFile := Some exampleImage\<rparr>))
                       (initialState\<lparr>imageFile := Some exampleImage\<rparr>))
     = Some \<lparr>chat_model = modelName,
             history = [Content User [TextPart (contextPrompt (hardware initialState) []),
                                      InlineData (js ''image/png'') (Some (js ''iVBORw==''))],
                        Content Model [TextPart (js ''A'' @ js ''B'' @ js ''C'')]],
             chat_systemInstruction = systemInstruction\<rparr>
   \<and> js ''A'' @ js ''B'' @ js ''C'' = js ''ABC''"
proof -
  have st: "generateContentStream exampleEnv
      = Inr \<lparr>chunks = [Some (js ''A''), Some (js ''B''), Some (js ''C'')], failure = None\<rparr>"
    by (simp add: exampleEnv_def exampleStream_def)
  have ctor: "constructorError exampleEnv = None" and cr: "chatsCreateError exampleEnv = None"
    by (simp_all add: exampleEnv_def)
  have ne: "js ''A'' \<noteq> []" "js ''B'' \<noteq> []" "js ''C'' \<noteq> []"
    by (simp_all add: js_def)
  have v1: "\<not> (\<forall>ch \<in> set (logData (initialState\<lparr>logData := js ''PARAM 1''\<rparr>)). isWhiteSpace ch)
           \<or> imageFile (initialState\<lparr>logData := js ''PARAM 1''\<rparr>) \<noteq> None"
    by (simp add: js_def isWhiteSpace_def)
  have i1: "\<forall>file. imageFile (initialState\<lparr>logData := js ''PARAM 1''\<rparr>) = Some file \<longrightarrow>
         fileToBase64 (readAsDataURL exampleEnv) = Inr None"
    by (simp add: initialState_def)
  have ps1: "[TextPart (contextPrompt (hardware initialState) (js ''PARAM 1''))]
     = TextPart (contextPrompt (hardware (initialState\<lparr>logData := js ''PARAM 1''\<rparr>))
         (logData (initialState\<lparr>logData := js ''PARAM 1''\<rparr>))) #
       (case imageFile (initialState\<lparr>logData := js ''PARAM 1''\<rparr>) of None \<Rightarrow> []
        | Some file \<Rightarrow> [InlineData (type file) None])"
    by (simp add: initialState_def)
  have v2: "\<not> (\<forall>ch \<in> set (logData (initialState\<lparr>imageFile := Some exampleImage\<rparr>)). isWhiteSpace ch)
           \<or> imageFile (initialState\<lparr>imageFile := Some exampleImage\<rparr>) \<noteq> None"
    by simp
  have i2: "\<forall>file. imageFile (initialState\<lparr>imageFile := Some exampleImage\<rparr>) = Some file \<longrightarrow>
         fileToBase64 (readAsDataURL exampleEnv) = Inr (Some (js ''iVBORw==''))"
    by (simp add: exampleEnv_def fileToBase64_def js_def)
  have ps2: "[TextPart (contextPrompt (hardware initialState) []),
              InlineData (js ''image/png'') (Some (js ''iVBORw==''))]
     = TextPart (contextPrompt (hardware (initialState\<lparr>imageFile := Some exampleImage\<rparr>))
         (logData (initialState\<lparr>imageFile := Some exampleImage\<rparr>))) #
       (case imageFile (initialState\<lparr>imageFile := Some exampleImage\<rparr>) of None \<Rightarrow> []
        | Some file \<Rightarrow> [InlineData (type file) (Some (js ''iVBORw==''))])"
    by (simp add: initialState_def exampleImage_def)
  have abc: "js ''A'' @ js ''B'' @ js ''C'' = js ''ABC''"
    by (simp add: js_def)
  note r1 = analysis_stream_ABC [OF v1 ctor i1 st ne cr ps1 refl]
  note r2 = analysis_stream_ABC [OF v2 ctor i2 st ne cr ps2 refl]
  show ?thesis
    using r1 r2 abc by blast
qed

subsection \<open>Chat\<close>

text \<open>
  C5. With a chat session and a message that is not blank, for the stream of the two
  non-empty fragments \<open>x\<close>, \<open>y\<close>: the first segment of \<open>sendChatMessage\<close> clears the input and
  appends the user's entry with the message; the next appends an empty entry of the model;
  each fragment then replaces this last entry by the concatenation so far. The history,
  observed after each segment, has the two new entries and no other, the model's text going
  through \<open>x\<close> to \<open>xy\<close>. With a blank message or without a session, \<open>sendChatMessage\<close> does
  nothing: no setter call and no call to the session.
\<close>

theorem chat_stream_XY:
  "(chatSession s = Some chat \<and> \<not> (\<forall>ch \<in> set (chatInput s). isWhiteSpace ch)
      \<and> x \<noteq> [] \<and> y \<noteq> [] \<longrightarrow>
      sendChatMessage (Inr \<lparr>chunks = [Some x, Some y], failure = None\<rparr>) s
        = [[SetChatInput [], AppendChatHistory \<lparr>role = User, text = chatInput s\<rparr>,
            Call (SendMessageStream chat (chatInput s))],
           [AppendChatHistory \<lparr>role = Model, text = []\<rparr>],
           [ReplaceLastChatHistory \<lparr>role = Model, text = x\<rparr>],
           [ReplaceLastChatHistory \<lparr>role = Model, text = x @ y\<rparr>],
           []]
      \<and> map chatHistory (trace (sendChatMessage (Inr \<lparr>chunks = [Some x, Some y], failure = None\<rparr>) s) s)
        = [chatHistory s @ [\<lparr>role = User, text = chatInput s\<rparr>],
           chatHistory s @ [\<lparr>role = User, text = chatInput s\<rparr>, \<lparr>role = Model, text = []\<rparr>],
           chatHistory s @ [\<lparr>role = User, text = chatInput s\<rparr>, \<lparr>role = Model, text = x\<rparr>],
           chatHistory s @ [\<lparr>role = User, text = chatInput s\<rparr>, \<lparr>role = Model, text = x @ y\<rparr>],
           chatHistory s @ [\<lparr>role = User, text = chatInput s\<rparr>, \<lparr>role = Model, text = x @ y\<rparr>]]
      \<and> (\<forall>st \<in> set (trace (sendChatMessage (Inr \<lparr>chunks = [Some x, Some y], failure = None\<rparr>) s) s).
            chatInput st = []))
   \<and> ((\<forall>ch \<in> set (chatInput s). isWhiteSpace ch) \<or> chatSession s = None \<longrightarrow>
        sendChatMessage answer s = [] \<and> exec (sendChatMessage answer s) s = s
        \<and> calls (sendChatMessage answer s) = [])"
proof -
  have noop: "(\<forall>ch \<in> set (chatInput s). isWhiteSpace ch) \<or> chatSession s = None \<longrightarrow>
        sendChatMessage answer s = [] \<and> exec (sendChatMessage answer s) s = s
        \<and> calls (sendChatMessage answer s) = []"
    by (auto simp: sendChatMessage_def trim_Nil_iff exec_def calls_def List.map_filter_simps)
  have run: "chatSession s = Some chat \<and> \<not> (\<forall>ch \<in> set (chatInput s). isWhiteSpace ch)
      \<and> x \<noteq> [] \<and> y \<noteq> [] \<longrightarrow>
      sendChatMessage (Inr \<lparr>chunks = [Some x, Some y], failure = None\<rparr>) s
        = [[SetChatInput [], AppendChatHistory \<lparr>role = User, text = chatInput s\<rparr>,
            Call (SendMessageStream chat (chatInput s))],
           [AppendChatHistory \<lparr>role = Model, text = []\<rparr>],
           [ReplaceLastChatHistory \<lparr>role = Model, text = x\<rparr>],
           [ReplaceLastChatHistory \<lparr>role = Model, text = x @ y\<rparr>],
           []]
      \<and> map chatHistory (trace (sendChatMessage (Inr \<lparr>chunks = [Some x, Some y], failure = None\<rparr>) s) s)
        = [chatHistory s @ [\<lparr>role = User, text = chatInput s\<rparr>],
           chatHistory s @ [\<lparr>role = User, text = chatInput s\<rparr>, \<lparr>role = Model, text = []\<rparr>],
           chatHistory s @ [\<lparr>role = User, text = chatInput s\<rparr>, \<lparr>role = Model, text = x\<rparr>],
           chatHistory s @ [\<lparr>role = User, text = chatInput s\<rparr>, \<lparr>role = Model, text = x @ y\<rparr>],
           chatHistory s @ [\<lparr>role = User, text = chatInput s\<rparr>, \<lparr>role = Model, text = x @ y\<rparr>]]
      \<and> (\<forall>st \<in> set (trace (sendChatMessage (Inr \<lparr>chunks = [Some x, Some y], failure = None\<rparr>) s) s).
            chatInput st = [])"
  proof (intro impI)
    assume a: "chatSession s = Some chat \<and> \<not> (\<forall>ch \<in> set (chatInput s). isWhiteSpace ch)
      \<and> x \<noteq> [] \<and> y \<noteq> []"
    then have "trim (chatInput s) \<noteq> []" by (simp add: trim_Nil_iff)
    then have sc: "sendChatMessage (Inr \<lparr>chunks = [Some x, Some y], failure = None\<rparr>) s
        = [[SetChatInput [], AppendChatHistory \<lparr>role = User, text = chatInput s\<rparr>,
            Call (SendMessageStream chat (chatInput s))],
           [AppendChatHistory \<lparr>role = Model, text = []\<rparr>],
           [ReplaceLastChatHistory \<lparr>role = Model, text = x\<rparr>],
           [ReplaceLastChatHistory \<lparr>role = Model, text = x @ y\<rparr>],
           []]"
      using a by (simp add: sendChatMessage_def Let_def)
    show "sendChatMessage (Inr \<lparr>chunks = [Some x, Some y], failure = None\<rparr>) s
        = [[SetChatInput [], AppendChatHistory \<lparr>role = User, text = chatInput s\<rparr>,
            Call (SendMessageStream chat (chatInput s))],
           [AppendChatHistory \<lparr>role = Model, text = []\<rparr>],
           [ReplaceLastChatHistory \<lparr>role = Model, text = x\<rparr>],
           [ReplaceLastChatHistory \<lparr>role = Model, text = x @ y\<rparr>],
           []]
      \<and> map chatHistory (trace (sendChatMessage (Inr \<lparr>chunks = [Some x, Some y], failure = None\<rparr>) s) s)
        = [chatHistory s @ [\<lparr>role = User, text = chatInput s\<rparr>],
           chatHistory s @ [\<lparr>role = User, text = chatInput s\<rparr>, \<lparr>role = Model, text = []\<rparr>],
           chatHistory s @ [\<lparr>role = User, text = chatInput s\<rparr>, \<lparr>role = Model, text = x\<rparr>],
           chatHistory s @ [\<lparr>role = User, text = chatInput s\<rparr>, \<lparr>role = Model, text = x @ y\<rparr>],
           chatHistory s @ [\<lparr>role = User, text = chatInput s\<rparr>, \<lparr>role = Model, text = x @ y\<rparr>]]
      \<and> (\<forall>st \<in> set (trace (sendChatMessage (Inr \<lparr>chunks = [Some x, Some y], failure = None\<rparr>) s) s).
            chatInput st = [])"
      unfolding sc by (simp add: apply_segment_def)
  qed
  show ?thesis using run noop by (rule conjI)
qed

theorem chat_stream_XY_witness:
  "map chatHistory
     (trace (sendChatMessage (Inr \<lparr>chunks = [Some (js ''X''), Some (js ''Y'')], failure = None\<rparr>)
               (initialState\<lparr>chatSession := Some exampleChat, chatInput := js ''test''\<rparr>))
            (initialState\<lparr>chatSession := Some exampleChat, chatInput := js ''test''\<rparr>))
     = [[\<lparr>role = User, text = js ''test''\<rparr>],
        [\<lparr>role = User, text = js ''test''\<rparr>, \<lparr>role = Model, text = []\<rparr>],
        [\<lparr>role = User, text = js ''test''\<rparr>, \<lparr>role = Model, text = js ''X''\<rparr>],
        [\<lparr>role = User, text = js ''test''\<rparr>, \<lparr>role = Model, text = js ''XY''\<rparr>],
        [\<lparr>role = User, text = js ''test''\<rparr>, \<lparr>role = Model, text = js ''XY''\<rparr>]]
   \<and> sendChatMessage (Inr \<lparr>chunks = [Some (js ''X''), Some (js ''Y'')], failure = None\<rparr>)
        (initialState\<lparr>chatInput := js ''test''\<rparr>) = []
   \<and> sendChatMessage (Inr \<lparr>chunks = [Some (js ''X''), Some (js ''Y'')], failure = None\<rparr>)
        (initialState\<lparr>chatSession := Some exampleChat, chatInput := js ''  ''\<rparr>) = []"
  using chat_stream_XY [of "initialState\<lparr>chatSession := Some exampleChat, chatInput := js ''test''\<rparr>"
      exampleChat "js ''X''" "js ''Y''"]
    chat_stream_XY [of "initialState\<lparr>chatInput := js ''test''\<rparr>" exampleChat "js ''X''" "js ''Y''"
      "Inr \<lparr>chunks = [Some (js ''X''), Some (js ''Y'')], failure = None\<rparr>"]
    chat_stream_XY [of "initialState\<lparr>chatSession := Some exampleChat, chatInput := js ''  ''\<rparr>"
      exampleChat "js ''X''" "js ''Y''"
      "Inr \<lparr>chunks = [Some (js ''X''), Some (js ''Y'')], failure = None\<rparr>"]
  by (simp add: initialState_def js_def isWhiteSpace_def apply_segment_def replaceLast_simps)

subsection \<open>The chat session and the most recent analysis\<close>

lemma apply_event_neutral:
  "\<not> touches e \<Longrightarrow> chatSession (apply_event e s) = chatSession s
     \<and> isAnalyzing (apply_event e s) = isAnalyzing s"
  by (cases e) auto

lemma apply_segment_neutral:
  "neutral seg \<Longrightarrow> chatSession (apply_segment seg s) = chatSession s
     \<and> isAnalyzing (apply_segment seg s) = isAnalyzing s"
  unfolding apply_segment_def neutral_def
  by (induction seg arbitrary: s) (auto simp: apply_event_neutral)

lemma neutral_simps [simp]:
  "neutral []"
  "neutral (e # seg) \<longleftrightarrow> \<not> touches e \<and> neutral seg"
  by (auto simp: neutral_def)

lemma chatLoop_neutral: "seg \<in> set (chatLoop m cs) \<Longrightarrow> neutral seg"
  by (induction m cs arbitrary: seg rule: chatLoop.induct) (auto simp: Let_def split: if_splits)

lemma sendChatMessage_neutral: "seg \<in> set (sendChatMessage answer s) \<Longrightarrow> neutral seg"
  by (auto simp: sendChatMessage_def Let_def split: if_splits option.splits sum.splits
      dest: chatLoop_neutral)

lemma handleFileSelect_neutral: "seg \<in> set (handleFileSelect pf re files) \<Longrightarrow> neutral seg"
  by (auto simp: handleFileSelect_def Let_def split: if_splits option.splits list.splits)

lemma sync_neutral:
  "seg \<in> set (handleInputChange f v) \<Longrightarrow> neutral seg"
  "seg \<in> set (onChangeLogData v) \<Longrightarrow> neutral seg"
  "seg \<in> set (onChangeChatInput v) \<Longrightarrow> neutral seg"
  "seg \<in> set clearImage \<Longrightarrow> neutral seg"
  by (auto simp: handleInputChange_def onChangeLogData_def onChangeChatInput_def clearImage_def)

lemma analysisLoop_neutral: "seg \<in> set (fst (analysisLoop full cs)) \<Longrightarrow> neutral seg"
  by (induction full cs arbitrary: seg rule: analysisLoop.induct)
     (auto simp: Let_def split: if_splits prod.splits)


lemma closing_analysisFailed: "closing False (analysisFailed e)"
  by (simp add: closing_def analysisFailed_def apply_segment_def)

lemma closing_analysisDone: "closing (chatsCreateError env = None) (analysisDone env ps full)"
  by (cases "chatsCreateError env")
     (simp_all add: closing_def analysisDone_def analysisFailed_def apply_segment_def Let_def)

lemma pending_snoc: "(\<forall>seg \<in> set segs. neutral seg) \<Longrightarrow> closing ok final \<Longrightarrow> pending ok (segs @ [final])"
  by (simp add: pending_def)

lemma neutral_Call: "neutral [Call x]"
  by simp

lemma analysisStream_shape:
  "\<exists>req rest. analysisStream env ps = [Call req] # rest \<and> pending (streamSucceeds env) rest"
proof (cases "generateContentStream env")
  case (Inl e)
  then have "analysisStream env ps =
      [Call (GenerateContentStream
              \<lparr>model = modelName, contents = ps,
               config_systemInstruction = systemInstruction, thinkingBudget = 1024\<rparr>)] #
      ([] @ [analysisFailed e])"
    by (simp add: analysisStream_def)
  moreover have "pending (streamSucceeds env) ([] @ [analysisFailed e])"
    using Inl closing_analysisFailed by (intro pending_snoc) (simp_all add: streamSucceeds_def)
  ultimately show ?thesis by blast
next
  case (Inr rs)
  obtain segs full where lp: "analysisLoop [] (chunks rs) = (segs, full)"
    by (cases "analysisLoop [] (chunks rs)") auto
  then have n: "\<forall>seg \<in> set segs. neutral seg"
    using analysisLoop_neutral [of _ "[]" "chunks rs"] by simp
  define final where "final = (case failure rs of Some e \<Rightarrow> analysisFailed e
                                | None \<Rightarrow> analysisDone env ps full)"
  have eq: "analysisStream env ps =
      [Call (GenerateContentStream
              \<lparr>model = modelName, contents = ps,
               config_systemInstruction = systemInstruction, thinkingBudget = 1024\<rparr>)] #
      (segs @ [final])"
    using Inr lp by (simp add: analysisStream_def final_def)
  have "closing (streamSucceeds env) final"
  proof (cases "failure rs")
    case None
    then show ?thesis
      using Inr closing_analysisDone [of env ps full] by (simp add: final_def streamSucceeds_def)
  next
    case (Some e)
    then show ?thesis
      using Inr closing_analysisFailed [of e] by (simp add: final_def streamSucceeds_def)
  qed
  then have "pending (streamSucceeds env) (segs @ [final])"
    using n by (intro pending_snoc)
  then show ?thesis using eq by blast
qed


lemma apply_segment_append: "apply_segment (a @ b) s = apply_segment b (apply_segment a s)"
  by (simp add: apply_segment_def)

lemma pending_Cons: "neutral first \<Longrightarrow> pending ok rest \<Longrightarrow> pending ok (first # rest)"
  by (auto simp: pending_def)

lemma pending_not_Nil: "pending ok rest \<Longrightarrow> rest \<noteq> []"
  by (simp add: pending_def)

lemma fileToBase64_Inl: "fileToBase64 r = Inl e \<Longrightarrow> r = Inl e"
  by (auto simp: fileToBase64_def split: sum.splits list.splits)

lemma fileToBase64_Inr: "fileToBase64 r = Inr d \<Longrightarrow> \<exists>url. r = Inr url"
  by (auto simp: fileToBase64_def split: sum.splits list.splits)

lemma analysisBegin_effect:
  "chatSession (apply_segment (analysisBegin env) st) = None"
  "isAnalyzing (apply_segment (analysisBegin env) st)"
  "chatHistory (apply_segment (analysisBegin env) st) = []"
  by (simp_all add: analysisBegin_def apply_segment_def)

lemma startAnalysis_shape:
  assumes "validates s"
  shows "\<exists>seg rest. startAnalysis env s = seg # rest
      \<and> (\<forall>st. chatSession (apply_segment seg st) = None \<and> chatHistory (apply_segment seg st) = [])
      \<and> (rest = [] \<longrightarrow> \<not> analysisSucceeds env s \<and> (\<forall>st. \<not> isAnalyzing (apply_segment seg st)))
      \<and> (rest \<noteq> [] \<longrightarrow> (\<forall>st. isAnalyzing (apply_segment seg st))
            \<and> pending (analysisSucceeds env s) rest)"
proof (cases "constructorError env")
  case (Some e)
  then have "startAnalysis env s = [analysisBegin env @ analysisFailed e]"
    using assms by (auto simp: startAnalysis_def validates_def analysisBegin_def)
  moreover have "\<not> analysisSucceeds env s"
    using Some by (simp add: analysisSucceeds_def)
  moreover have "chatSession (apply_segment (analysisBegin env @ analysisFailed e) st) = None
      \<and> chatHistory (apply_segment (analysisBegin env @ analysisFailed e) st) = []
      \<and> \<not> isAnalyzing (apply_segment (analysisBegin env @ analysisFailed e) st)" for st
    by (simp add: analysisBegin_def analysisFailed_def apply_segment_def)
  ultimately show ?thesis by simp
next
  case None
  note ctor = None
  show ?thesis
  proof (cases "imageFile s")
    case None
    obtain req rest where sh: "analysisStream env [TextPart (contextPrompt (hardware s) (logData s))]
        = [Call req] # rest" "pending (streamSucceeds env) rest"
      using analysisStream_shape by blast
    define first where "first = [Call req]"
    note sh = sh(1) [folded first_def] sh(2)
    have sa: "startAnalysis env s = (analysisBegin env @ first) # rest"
      using assms ctor None sh(1)
      by (auto simp: startAnalysis_def validates_def analysisBegin_def)
    have ok: "analysisSucceeds env s = streamSucceeds env"
      using ctor None by (simp add: analysisSucceeds_def streamSucceeds_def)
    have eff: "chatSession (apply_segment (analysisBegin env @ first) st) = None
        \<and> chatHistory (apply_segment (analysisBegin env @ first) st) = []
        \<and> isAnalyzing (apply_segment (analysisBegin env @ first) st)" for st
      by (simp add: first_def analysisBegin_def apply_segment_def)
    show ?thesis using sa ok eff sh(2) pending_not_Nil by auto
  next
    case (Some f)
    have sa: "startAnalysis env s = (analysisBegin env @ [Call (ReadAsDataURL f)]) #
        (case fileToBase64 (readAsDataURL env) of
           Inl e \<Rightarrow> [analysisFailed e]
         | Inr base64Data \<Rightarrow>
             analysisStream env
               [TextPart (contextPrompt (hardware s) (logData s)), InlineData (type f) base64Data])"
      using assms ctor Some
      by (auto simp: startAnalysis_def validates_def analysisBegin_def)
    have eff: "chatSession (apply_segment (analysisBegin env @ [Call (ReadAsDataURL f)]) st) = None
        \<and> chatHistory (apply_segment (analysisBegin env @ [Call (ReadAsDataURL f)]) st) = []
        \<and> isAnalyzing (apply_segment (analysisBegin env @ [Call (ReadAsDataURL f)]) st)" for st
      by (simp add: analysisBegin_def apply_segment_def)
    have "pending (analysisSucceeds env s)
        (case fileToBase64 (readAsDataURL env) of
           Inl e \<Rightarrow> [analysisFailed e]
         | Inr base64Data \<Rightarrow>
             analysisStream env
               [TextPart (contextPrompt (hardware s) (logData s)), InlineData (type f) base64Data])"
    proof (cases "fileToBase64 (readAsDataURL env)")
      case (Inl e)
      then have "\<not> analysisSucceeds env s"
        using Some fileToBase64_Inl [OF Inl] by (simp add: analysisSucceeds_def)
      then show ?thesis
        using Inl closing_analysisFailed [of e] pending_snoc [of "[]" False "analysisFailed e"]
        by simp
    next
      case (Inr d)
      obtain req rest where sh: "analysisStream env
          [TextPart (contextPrompt (hardware s) (logData s)), InlineData (type f) d]
          = [Call req] # rest" "pending (streamSucceeds env) rest"
        using analysisStream_shape by blast
      have "analysisSucceeds env s = streamSucceeds env"
        using ctor Some fileToBase64_Inr [OF Inr]
        by (auto simp: analysisSucceeds_def streamSucceeds_def)
      then show ?thesis using Inr sh pending_Cons [OF neutral_Call, of _ rest req] by simp
    qed
    then show ?thesis using sa eff pending_not_Nil by auto
  qed
qed


lemma inv_init: "inv initialConfig"
  by (simp add: inv_def initialConfig_def initialState_def)

lemma inv_launch:
  assumes "inv c" and "\<forall>seg \<in> set segs. neutral seg"
  shows "inv (launch segs c)"
proof (cases segs)
  case Nil
  then show ?thesis using assms by simp
next
  case (Cons seg rest)
  then have "neutral seg" and "\<forall>g \<in> set rest. neutral g" using assms(2) by auto
  then show ?thesis
    using assms(1) Cons apply_segment_neutral [of seg "state c"]
    by (auto simp: inv_def)
qed

lemma inv_resumeOther:
  assumes "inv c"
  shows "inv (resumeOther i c)"
proof (cases "i < length (otherTasks c)")
  case False
  then show ?thesis using assms by (simp add: resumeOther_def)
next
  case True
  then have mem: "otherTasks c ! i \<in> set (otherTasks c)" by simp
  have sub: "set (take i (otherTasks c) @ drop (Suc i) (otherTasks c)) \<subseteq> set (otherTasks c)"
    by (auto dest: in_set_takeD in_set_dropD)
  show ?thesis
  proof (cases "otherTasks c ! i")
    case Nil
    then show ?thesis using assms True sub by (auto simp: resumeOther_def inv_def)
  next
    case (Cons seg rest)
    then have n: "neutral seg" "\<forall>g \<in> set rest. neutral g"
      using assms mem by (auto simp: inv_def)
    have upd: "set ((otherTasks c)[i := rest]) \<subseteq> insert rest (set (otherTasks c))"
      by (rule set_update_subset_insert)
    show ?thesis
      using assms True Cons n sub upd apply_segment_neutral [of seg "state c"]
      by (auto simp: resumeOther_def inv_def)
  qed
qed

lemma inv_resumeAnalysis:
  assumes "inv c"
  shows "inv (resumeAnalysis c)"
proof (cases "analysisTask c")
  case Nil
  then show ?thesis using assms by (simp add: resumeAnalysis_def)
next
  case (Cons seg rest)
  then obtain ok where ok: "lastAnalysis c = InFlight ok" "pending ok (seg # rest)"
    and none: "chatSession (state c) = None"
    using assms by (auto simp: inv_def)
  show ?thesis
  proof (cases "rest = []")
    case True
    then have "closing ok seg" using ok(2) by (simp add: pending_def)
    then have "\<not> isAnalyzing (apply_segment seg (state c))"
      and "(chatSession (apply_segment seg (state c)) \<noteq> None) = ok"
      using none by (auto simp: closing_def)
    then show ?thesis
      using assms Cons True ok(1) by (auto simp: resumeAnalysis_def inv_def)
  next
    case False
    then have n: "neutral seg" and p: "pending ok rest"
      using ok(2) by (auto simp: pending_def)
    show ?thesis
      using assms Cons False ok(1) p apply_segment_neutral [OF n, of "state c"]
      by (auto simp: resumeAnalysis_def inv_def)
  qed
qed

lemma inv_launchAnalysis:
  assumes "inv c"
  shows "inv (launchAnalysis env c)"
proof (cases "isAnalyzing (state c)")
  case True
  then show ?thesis using assms by (simp add: launchAnalysis_def)
next
  case False
  note idle = False
  show ?thesis
  proof (cases "validates (state c)")
    case False
    then have "startAnalysis env (state c) = [[SetErrorMsg validationMsg]]"
      by (auto simp: startAnalysis_def validates_def)
    then show ?thesis
      using assms idle False inv_launch [of c "[[SetErrorMsg validationMsg]]"]
      by (simp add: launchAnalysis_def)
  next
    case True
    obtain seg rest where sh: "startAnalysis env (state c) = seg # rest"
      "\<forall>st. chatSession (apply_segment seg st) = None \<and> chatHistory (apply_segment seg st) = []"
      "rest = [] \<longrightarrow> \<not> analysisSucceeds env (state c) \<and> (\<forall>st. \<not> isAnalyzing (apply_segment seg st))"
      "rest \<noteq> [] \<longrightarrow> (\<forall>st. isAnalyzing (apply_segment seg st))
            \<and> pending (analysisSucceeds env (state c)) rest"
      using startAnalysis_shape [OF True, of env] by blast
    show ?thesis
      using assms idle True sh
      by (auto simp: launchAnalysis_def inv_def)
  qed
qed

lemma reachable_inv: "reachable c \<Longrightarrow> inv c"
proof (induction rule: reachable.induct)
  case init
  show ?case by (rule inv_init)
next
  case (inputChange c f v)
  then show ?case using sync_neutral(1) by (intro inv_launch) auto
next
  case (logChange c v)
  then show ?case using sync_neutral(2) by (intro inv_launch) auto
next
  case (chatInputChange c v)
  then show ?case using sync_neutral(3) by (intro inv_launch) auto
next
  case (clearImg c)
  then show ?case using sync_neutral(4) by (intro inv_launch) auto
next
  case (fileSelect c pf readError files)
  then show ?case using handleFileSelect_neutral by (intro inv_launch) auto
next
  case (chatSend c answer)
  then show ?case using sendChatMessage_neutral by (intro inv_launch) auto
next
  case (analyze c env)
  then show ?case by (intro inv_launchAnalysis)
next
  case (resume c)
  then show ?case by (intro inv_resumeAnalysis)
next
  case (other c i)
  then show ?case by (intro inv_resumeOther)
qed

text \<open>
  C6. In every configuration the component can reach, with handlers overlapping as they
  may, there is a chat session if and only if the most recent analysis has ended and
  succeeded: none before the first analysis, none while one is in flight, none after one
  that failed. Starting an analysis that passes the validation clears the chat session and
  the chat history in its first segment.
\<close>

theorem chatSession_iff_analysis_succeeded:
  assumes "reachable c"
  shows "(chatSession (state c) \<noteq> None \<longleftrightarrow> lastAnalysis c = Succeeded)
       \<and> (\<not> isAnalyzing (state c) \<and> validates (state c) \<longrightarrow>
            chatSession (state (launchAnalysis env c)) = None
            \<and> chatHistory (state (launchAnalysis env c)) = [])"
proof -
  have 1: "chatSession (state c) \<noteq> None \<longleftrightarrow> lastAnalysis c = Succeeded"
    using reachable_inv [OF assms] by (simp add: inv_def)
  have 2: "chatSession (state (launchAnalysis env c)) = None
            \<and> chatHistory (state (launchAnalysis env c)) = []"
    if idle: "\<not> isAnalyzing (state c)" and valid: "validates (state c)"
  proof -
    obtain seg rest where "startAnalysis env (state c) = seg # rest"
      "\<forall>st. chatSession (apply_segment seg st) = None \<and> chatHistory (apply_segment seg st) = []"
      using startAnalysis_shape [OF valid, of env] by blast
    then show ?thesis using idle valid by (simp add: launchAnalysis_def)
  qed
  show ?thesis using 1 2 by blast
qed

theorem chatSession_iff_analysis_succeeded_witness:
  "reachable (resumeAnalysis (resumeAnalysis (resumeAnalysis (resumeAnalysis
      (launchAnalysis exampleEnv (launch (onChangeLogData (js ''PARAM 1'')) initialConfig))))))
   \<and> lastAnalysis (resumeAnalysis (resumeAnalysis (resumeAnalysis (resumeAnalysis
      (launchAnalysis exampleEnv (launch (onChangeLogData (js ''PARAM 1'')) initialConfig))))))
      = Succeeded
   \<and> chatSession (state (resumeAnalysis (resumeAnalysis (resumeAnalysis (resumeAnalysis
      (launchAnalysis exampleEnv (launch (onChangeLogData (js ''PARAM 1'')) initialConfig)))))))
      \<noteq> None
   \<and> chatSession (state (launchAnalysis exampleEnv
        (resumeAnalysis (resumeAnalysis (resumeAnalysis (resumeAnalysis
          (launchAnalysis exampleEnv
            (launch (onChangeLogData (js ''PARAM 1'')) initialConfig))))))))
      = None"
proof -
  define c1 where "c1 = launch (onChangeLogData (js ''PARAM 1'')) initialConfig"
  define c6 where "c6 = resumeAnalysis (resumeAnalysis (resumeAnalysis (resumeAnalysis
      (launchAnalysis exampleEnv c1))))"
  have s1: "state c1 = initialState\<lparr>logData := js ''PARAM 1''\<rparr>"
    by (simp add: c1_def onChangeLogData_def initialConfig_def apply_segment_def)
  have v: "validates (state c1)"
    by (simp add: s1 validates_def trim_Nil_iff js_def isWhiteSpace_def)
  have idle: "\<not> isAnalyzing (state c1)"
    by (simp add: s1 initialState_def)
  have ok: "analysisSucceeds exampleEnv (state c1)"
    by (simp add: s1 analysisSucceeds_def exampleEnv_def exampleStream_def initialState_def)
  obtain req chat where sa: "startAnalysis exampleEnv (state c1)
      = [analysisBegin exampleEnv @ [Call req],
         [SetAnalysisResult (Some (js ''A''))], [SetAnalysisResult (Some (js ''A'' @ js ''B''))],
         [SetAnalysisResult (Some (js ''A'' @ js ''B'' @ js ''C''))],
         [SetIsAnalyzing False, Call (ChatsCreate chat), SetChatSession (Some chat)]]"
    using v
    by (simp add: s1 validates_def startAnalysis_def analysisStream_def analysisDone_def
        exampleEnv_def exampleStream_def Let_def js_def initialState_def)
  have r: "reachable c6"
    unfolding c6_def c1_def by (intro reachable.intros)
  have l: "lastAnalysis c6 = Succeeded"
    using v idle ok sa by (simp add: c6_def launchAnalysis_def resumeAnalysis_def)
  have i6: "\<not> isAnalyzing (state c6)"
    using v idle sa
    by (simp add: c6_def launchAnalysis_def resumeAnalysis_def apply_segment_def analysisBegin_def)
  have "logData (state c6) = js ''PARAM 1''"
    using v idle sa
    by (simp add: c6_def s1 launchAnalysis_def resumeAnalysis_def apply_segment_def
        analysisBegin_def)
  then have v6: "validates (state c6)"
    by (simp add: validates_def trim_Nil_iff js_def isWhiteSpace_def)
  show ?thesis
    using chatSession_iff_analysis_succeeded [OF r, of exampleEnv] r l i6 v6
    unfolding c6_def c1_def by blast
qed

end
